theory Spec2Isabelle
  imports Main "HOL-Library.Word"
begin

section \<open>Regex colours of NeoMutt (color/regex.c)\<close>

text \<open>
  A shallow embedding of \<^verbatim>\<open>color/regex.c\<close>: nine global lists of regex colours,
  the lookup-or-insert function \<^verbatim>\<open>add_pattern\<close>, its two dispatchers and the
  clearing functions. Pointers to the nine global lists are values of \<open>ListId\<close>, the
  globals are one store \<open>lists\<close>, and a pointer to a list element is its position.
\<close>

subsection \<open>Data\<close>

text \<open>
  Modelled from the spec: the declaration of \<^verbatim>\<open>enum ColorId\<close> (color.h) is missing.
  The nine classes of the spec's "closed enumeration", under the names regex.c
  dispatches on, are constructors of their own; \<open>MT_COLOR_OTHER n\<close> stands for every
  other value a caller can pass (\<^verbatim>\<open>MT_COLOR_QUOTED\<close>, which the comments of regex.c
  name, among them).
\<close>

datatype ColorId =
    MT_COLOR_ATTACH_HEADERS
  | MT_COLOR_BODY
  | MT_COLOR_HEADER
  | MT_COLOR_INDEX
  | MT_COLOR_INDEX_AUTHOR
  | MT_COLOR_INDEX_FLAGS
  | MT_COLOR_INDEX_SUBJECT
  | MT_COLOR_INDEX_TAG
  | MT_COLOR_STATUS
  | MT_COLOR_OTHER nat

text \<open>
  Modelled from the spec: the declaration of \<^verbatim>\<open>enum CommandResult\<close> is missing.
  regex.c returns \<^verbatim>\<open>MUTT_CMD_SUCCESS\<close> and \<^verbatim>\<open>MUTT_CMD_ERROR\<close> only, the spec's
  "success" and "failure". The integer values are those of NeoMutt's header; they matter
  only where \<^verbatim>\<open>regex_colors_parse_status_list\<close> returns the result code as an
  \<^verbatim>\<open>int\<close>, and no property below depends on them.
\<close>

datatype CommandResult = MUTT_CMD_ERROR | MUTT_CMD_WARNING | MUTT_CMD_SUCCESS | MUTT_CMD_FINISH

fun CommandResult_int :: "CommandResult \<Rightarrow> int" where
  "CommandResult_int MUTT_CMD_ERROR = -1"
| "CommandResult_int MUTT_CMD_WARNING = -2"
| "CommandResult_int MUTT_CMD_SUCCESS = 0"
| "CommandResult_int MUTT_CMD_FINISH = 1"

text \<open>
  Modelled from the spec: the declaration of \<^verbatim>\<open>struct CursesColor\<close> (curses2.h) is
  missing. It is the spec's resolved handle for a pair (fg, bg); the record has the two
  fields regex.c reads and writes, of the type of the \<^verbatim>\<open>uint32_t\<close> arguments they are
  compared with.
\<close>

record CursesColor =
  fg :: "32 word"
  bg :: "32 word"

text \<open>
  Modelled from the spec: the declaration of \<^verbatim>\<open>struct AttrColor\<close> (attr.h) is
  missing. It is the spec's attribute of a rule: a possibly null pointer to a
  CursesColor, and the style bitmask, an \<^verbatim>\<open>int\<close> that is only stored.
\<close>

record AttrColor =
  curses_color :: "CursesColor option"
  attrs :: int

text \<open>
  A compiled \<^verbatim>\<open>regex_t\<close> is opaque to regex.c; the model keeps what it was compiled
  from: the pattern text and the flags handed to \<^verbatim>\<open>REG_COMP\<close>. A compiled
  \<^verbatim>\<open>struct PatternList\<close> is whatever the pattern compiler returned, tagged by a text.
\<close>

datatype regex_t = Regex string "16 word"

datatype PatternList = PatternList string

text \<open>
  Modelled from the spec: the declaration of \<^verbatim>\<open>struct RegexColor\<close> (regex4.h) is
  missing. It is the spec's rule, with the fields regex.c uses. \<open>pattern\<close> is a C
  string; a null pointer and the empty string are one value here. \<open>regex\<close> is \<open>None\<close>
  while the \<^verbatim>\<open>regex_t\<close> is zeroed; \<open>match\<close> is an \<^verbatim>\<open>int\<close> that is only stored.
\<close>

record RegexColor =
  attr_color :: AttrColor
  pattern :: string
  regex :: "regex_t option"
  match :: int
  color_pattern :: "PatternList option"
  stop_matching :: bool

type_synonym RegexColorList = "RegexColor list"

text \<open>The addresses of the nine global lists.\<close>

datatype ListId =
    AttachList
  | BodyList
  | HeaderList
  | IndexAuthorList
  | IndexFlagsList
  | IndexList
  | IndexSubjectList
  | IndexTagList
  | StatusList

text \<open>
  Modelled from the spec: the declaration of \<^verbatim>\<open>struct EventColor\<close> (color.h) is
  missing. It is the payload of the spec's \<^verbatim>\<open>notify(class_id)\<close>: one class identifier.
\<close>

record EventColor =
  color :: ColorId

text \<open>
  The global state: the nine lists, the events sent to \<^verbatim>\<open>ColorsNotify\<close> (oldest
  first; every one of type \<^verbatim>\<open>NT_COLOR\<close>, subtype \<^verbatim>\<open>NT_COLOR_SET\<close>), and the
  CursesColor handles given back to the colour allocator (oldest first).
\<close>

record ColorState =
  lists :: "ListId \<Rightarrow> RegexColorList"
  ColorsNotify :: "EventColor list"
  released :: "CursesColor list"

text \<open>A null pointer dereference ends the program.\<close>

datatype fault = NullDeref

subsection \<open>External capabilities\<close>

text \<open>
  The regex library, the pattern compiler, the configuration, the colour allocator and
  the multibyte case test are parameters of the model:
  \<^item> \<open>REG_COMP s flags\<close> is the return code of \<^verbatim>\<open>REG_COMP(&regex, s, flags)\<close>, 0 on success;
  \<^item> \<open>c_simple_search\<close> is the value of the config variable \<^verbatim>\<open>simple_search\<close>;
  \<^item> \<open>mutt_check_simple buf simple\<close> is the buffer after the expansion of a simple search;
  \<^item> \<open>mutt_pattern_comp text\<close> is the pattern compiled for the current mailbox and menu
    with \<^verbatim>\<open>MUTT_PC_FULL_MSG\<close>, or \<open>None\<close> for a null result;
  \<^item> \<open>curses_color_new f b\<close> is the CursesColor for a pair of colours, or \<open>None\<close> for a
    null result;
  \<^item> \<open>mutt_mb_is_lower s\<close> is the result of \<^verbatim>\<open>mutt_mb_is_lower(s)\<close> of mutt/mbyte.c, which
    is missing: whether the multibyte string is entirely lowercase in the current locale.
\<close>

record Env =
  REG_COMP :: "string \<Rightarrow> 16 word \<Rightarrow> int"
  c_simple_search :: "string option"
  mutt_check_simple :: "string \<Rightarrow> string \<Rightarrow> string"
  mutt_pattern_comp :: "string \<Rightarrow> PatternList option"
  curses_color_new :: "32 word \<Rightarrow> 32 word \<Rightarrow> CursesColor option"
  mutt_mb_is_lower :: "string \<Rightarrow> bool"

text \<open>\<^verbatim>\<open>REG_ICASE\<close> of the C library's regex.h (GNU libc: \<^verbatim>\<open>1 << 1\<close>); not zero.\<close>

definition REG_ICASE :: "16 word" where
  "REG_ICASE = 2"

text \<open>The macro \<^verbatim>\<open>NONULL(x)\<close> of the mutt library: the empty string for a null pointer.\<close>

definition NONULL :: "string option \<Rightarrow> string" where
  "NONULL x = (case x of None \<Rightarrow> [] | Some t \<Rightarrow> t)"

subsection \<open>String helpers of the mutt library\<close>

definition is_ascii_upper :: "char \<Rightarrow> bool" where
  "is_ascii_upper c = (65 \<le> (of_char c :: nat) \<and> (of_char c :: nat) \<le> 90)"

definition ascii_tolower :: "char \<Rightarrow> char" where
  "ascii_tolower c = (if is_ascii_upper c then char_of ((of_char c :: nat) + 32) else c)"

text \<open>
  Modelled from the spec: \<^verbatim>\<open>mutt_str_equal\<close> of mutt/string.c is missing; it is the
  "exact comparison" of two strings.
\<close>

definition mutt_str_equal :: "string \<Rightarrow> string \<Rightarrow> bool" where
  "mutt_str_equal a b = (a = b)"

text \<open>
  Modelled from the spec: \<^verbatim>\<open>mutt_istr_equal\<close> of mutt/string.c is missing; it is the
  "case-folded comparison" of two strings, here over the ASCII letters.
\<close>

definition mutt_istr_equal :: "string \<Rightarrow> string \<Rightarrow> bool" where
  "mutt_istr_equal a b = (map ascii_tolower a = map ascii_tolower b)"

text \<open>
  Modelled from the spec: \<^verbatim>\<open>mutt_str_dup\<close> of mutt/string.c is missing; it gives an
  "owned copy" of the text.
\<close>

definition mutt_str_dup :: "string \<Rightarrow> string" where
  "mutt_str_dup s = s"

subsection \<open>Colour handles and notifications\<close>

text \<open>
  Modelled from the spec: \<^verbatim>\<open>attr_color_clear\<close> of color/attr.c is missing; it
  "releases" the handle of an AttrColor, if there is one, and resets the style flags.
\<close>

definition attr_color_clear :: "AttrColor \<Rightarrow> ColorState \<Rightarrow> AttrColor \<times> ColorState" where
  "attr_color_clear ac st =
     (case curses_color ac of
        None \<Rightarrow> (ac\<lparr>attrs := 0\<rparr>, st)
      | Some cc \<Rightarrow> (ac\<lparr>curses_color := None, attrs := 0\<rparr>,
                    st\<lparr>released := released st @ [cc]\<rparr>))"

text \<open>
  Modelled from the spec: \<^verbatim>\<open>notify_send\<close> of mutt/notify.c is missing; it is the
  "fire-and-forget" delivery of one event to the subscribers of \<^verbatim>\<open>ColorsNotify\<close>.
\<close>

definition notify_send :: "EventColor \<Rightarrow> ColorState \<Rightarrow> ColorState" where
  "notify_send ev st = st\<lparr>ColorsNotify := ColorsNotify st @ [ev]\<rparr>"

subsection \<open>Initialising and clearing\<close>

definition STAILQ_INIT :: "ListId \<Rightarrow> ColorState \<Rightarrow> ColorState" where
  "STAILQ_INIT head st = st\<lparr>lists := (lists st)(head := [])\<rparr>"

definition regex_colors_init :: "ColorState \<Rightarrow> ColorState" where
  "regex_colors_init st =
     (let st = STAILQ_INIT AttachList st;
          st = STAILQ_INIT BodyList st;
          st = STAILQ_INIT HeaderList st;
          st = STAILQ_INIT IndexAuthorList st;
          st = STAILQ_INIT IndexFlagsList st;
          st = STAILQ_INIT IndexList st;
          st = STAILQ_INIT IndexSubjectList st;
          st = STAILQ_INIT IndexTagList st;
          st = STAILQ_INIT StatusList st
      in st)"

text \<open>
  \<^verbatim>\<open>regex_color_clear\<close>: the argument is a possibly null pointer to a RegexColor; the
  result is the object it points to afterwards.
\<close>

definition regex_color_clear :: "RegexColor option \<Rightarrow> ColorState \<Rightarrow> RegexColor option \<times> ColorState" where
  "regex_color_clear rcol st =
     (case rcol of
        None \<Rightarrow> (None, st)
      | Some r \<Rightarrow>
          (let r = r\<lparr>match := 0\<rparr>;
               r = r\<lparr>stop_matching := False\<rparr>;
               (ac, st) = attr_color_clear (attr_color r) st;
               r = r\<lparr>attr_color := ac\<rparr>;
               r = r\<lparr>pattern := []\<rparr>;
               r = r\<lparr>regex := None\<rparr>;
               r = r\<lparr>color_pattern := None\<rparr>
           in (Some r, st)))"

text \<open>
  \<^verbatim>\<open>regex_color_free\<close>: the argument is \<^verbatim>\<open>*ptr\<close>, a possibly null pointer to a
  RegexColor; the result is \<^verbatim>\<open>*ptr\<close> afterwards, which is null.
\<close>

definition regex_color_free :: "RegexColor option \<Rightarrow> ColorState \<Rightarrow> RegexColor option \<times> ColorState" where
  "regex_color_free ptr st =
     (case ptr of
        None \<Rightarrow> (None, st)
      | Some rcol \<Rightarrow>
          (let (cleared, st) = regex_color_clear (Some rcol) st
           in (None, st)))"

text \<open>\<^verbatim>\<open>regex_color_new\<close>: a RegexColor from \<^verbatim>\<open>mutt_mem_calloc\<close>, all zero.\<close>

definition regex_color_new :: RegexColor where
  "regex_color_new =
     \<lparr>attr_color = \<lparr>curses_color = None, attrs = 0\<rparr>, pattern = [], regex = None,
      match = 0, color_pattern = None, stop_matching = False\<rparr>"

text \<open>
  The loop of \<^verbatim>\<open>regex_color_list_clear\<close>: \<^verbatim>\<open>STAILQ_FOREACH_SAFE\<close> over the
  elements the list had, each one removed from the list and freed.
\<close>

fun regex_color_list_clear_loop :: "RegexColor list \<Rightarrow> ListId \<Rightarrow> ColorState \<Rightarrow> ColorState" where
  "regex_color_list_clear_loop [] rcl st = st"
| "regex_color_list_clear_loop (np # tmp) rcl st =
     (let st = st\<lparr>lists := (lists st)(rcl := remove1 np (lists st rcl))\<rparr>;
          (np', st) = regex_color_free (Some np) st
      in regex_color_list_clear_loop tmp rcl st)"

definition regex_color_list_clear :: "ListId option \<Rightarrow> ColorState \<Rightarrow> ColorState" where
  "regex_color_list_clear rcl st =
     (case rcl of
        None \<Rightarrow> st
      | Some l \<Rightarrow> regex_color_list_clear_loop (lists st l) l st)"

definition regex_colors_clear :: "ColorState \<Rightarrow> ColorState" where
  "regex_colors_clear st =
     (let st = regex_color_list_clear (Some AttachList) st;
          st = regex_color_list_clear (Some BodyList) st;
          st = regex_color_list_clear (Some HeaderList) st;
          st = regex_color_list_clear (Some IndexList) st;
          st = regex_color_list_clear (Some IndexAuthorList) st;
          st = regex_color_list_clear (Some IndexFlagsList) st;
          st = regex_color_list_clear (Some IndexSubjectList) st;
          st = regex_color_list_clear (Some IndexTagList) st;
          st = regex_color_list_clear (Some StatusList) st
      in st)"

subsection \<open>The registry\<close>

fun regex_colors_get_list :: "ColorId \<Rightarrow> ListId option" where
  "regex_colors_get_list MT_COLOR_ATTACH_HEADERS = Some AttachList"
| "regex_colors_get_list MT_COLOR_BODY = Some BodyList"
| "regex_colors_get_list MT_COLOR_HEADER = Some HeaderList"
| "regex_colors_get_list MT_COLOR_INDEX = Some IndexList"
| "regex_colors_get_list MT_COLOR_INDEX_AUTHOR = Some IndexAuthorList"
| "regex_colors_get_list MT_COLOR_INDEX_FLAGS = Some IndexFlagsList"
| "regex_colors_get_list MT_COLOR_INDEX_SUBJECT = Some IndexSubjectList"
| "regex_colors_get_list MT_COLOR_INDEX_TAG = Some IndexTagList"
| "regex_colors_get_list MT_COLOR_STATUS = Some StatusList"
| "regex_colors_get_list (MT_COLOR_OTHER n) = None"

subsection \<open>Lookup or insert\<close>

text \<open>
  The scan at the head of \<^verbatim>\<open>add_pattern\<close>: the position of the first element whose
  pattern equals \<open>s\<close>, or \<open>None\<close> when the loop ends with a null \<^verbatim>\<open>rcol\<close>.
\<close>

fun add_pattern_scan :: "string \<Rightarrow> bool \<Rightarrow> RegexColor list \<Rightarrow> nat option" where
  "add_pattern_scan s sensitive [] = None"
| "add_pattern_scan s sensitive (rcol # rest) =
     (if (sensitive \<and> mutt_str_equal s (pattern rcol)) \<or>
         (\<not> sensitive \<and> mutt_istr_equal s (pattern rcol))
      then Some 0
      else map_option Suc (add_pattern_scan s sensitive rest))"

text \<open>The end of \<^verbatim>\<open>add_pattern\<close>: the notification for the index, and success.\<close>

definition add_pattern_notify :: "bool \<Rightarrow> ColorState \<Rightarrow> fault + (CommandResult \<times> ColorState)" where
  "add_pattern_notify is_index st =
     (let st = (if is_index
                then (let ev_c = \<lparr>color = MT_COLOR_INDEX\<rparr> in notify_send ev_c st)
                else st)
      in Inr (MUTT_CMD_SUCCESS, st))"

text \<open>
  \<^verbatim>\<open>add_pattern\<close>. The error buffer \<^verbatim>\<open>err\<close> is written by the regex library and the
  pattern compiler only and is left out. On the update path the result of
  \<^verbatim>\<open>curses_color_new\<close> is dereferenced unchecked.
\<close>

definition add_pattern ::
  "Env \<Rightarrow> ListId \<Rightarrow> string \<Rightarrow> bool \<Rightarrow> 32 word \<Rightarrow> 32 word \<Rightarrow> int \<Rightarrow> bool \<Rightarrow> int \<Rightarrow> ColorState
     \<Rightarrow> fault + (CommandResult \<times> ColorState)" where
  "add_pattern env rcl s sensitive fg' bg' attrs' is_index match' st =
     (case add_pattern_scan s sensitive (lists st rcl) of
        Some i \<Rightarrow>
          (let rcol = lists st rcl ! i;
               ac = attr_color rcol;
               cc = curses_color ac
           in case cc of
                None \<Rightarrow>
                  (let ac = ac\<lparr>attrs := attrs'\<rparr>;
                       st = st\<lparr>lists := (lists st)(rcl := (lists st rcl)[i := rcol\<lparr>attr_color := ac\<rparr>])\<rparr>
                   in add_pattern_notify is_index st)
              | Some c \<Rightarrow>
                  if fg c \<noteq> fg' \<or> bg c \<noteq> bg'
                  then
                    (let (ac, st) = attr_color_clear ac st
                     in case curses_color_new env fg' bg' of
                          None \<Rightarrow> Inl NullDeref
                        | Some cc \<Rightarrow>
                            (let cc = cc\<lparr>fg := fg'\<rparr>;
                                 cc = cc\<lparr>bg := bg'\<rparr>;
                                 ac = ac\<lparr>curses_color := Some cc\<rparr>;
                                 ac = ac\<lparr>attrs := attrs'\<rparr>;
                                 st = st\<lparr>lists := (lists st)(rcl := (lists st rcl)[i := rcol\<lparr>attr_color := ac\<rparr>])\<rparr>
                             in add_pattern_notify is_index st))
                  else
                    (let ac = ac\<lparr>attrs := attrs'\<rparr>;
                         st = st\<lparr>lists := (lists st)(rcl := (lists st rcl)[i := rcol\<lparr>attr_color := ac\<rparr>])\<rparr>
                     in add_pattern_notify is_index st))
      | None \<Rightarrow>
          (let rcol = regex_color_new
           in case (if is_index
                    then
                      (let buf = s;
                           buf = mutt_check_simple env buf (NONULL (c_simple_search env))
                       in case mutt_pattern_comp env buf of
                            None \<Rightarrow> None
                          | Some p \<Rightarrow> Some (rcol\<lparr>color_pattern := Some p\<rparr>))
                    else
                      (let flags = (if sensitive
                                    then (if mutt_mb_is_lower env s then REG_ICASE else 0)
                                    else REG_ICASE);
                           r = REG_COMP env s flags
                       in if r \<noteq> 0 then None
                          else Some (rcol\<lparr>regex := Some (Regex s flags)\<rparr>)))
              of
                None \<Rightarrow>
                  (let (rcol', st) = regex_color_free (Some rcol) st
                   in Inr (MUTT_CMD_ERROR, st))
              | Some rcol \<Rightarrow>
                  (let rcol = rcol\<lparr>pattern := mutt_str_dup s\<rparr>;
                       rcol = rcol\<lparr>match := match'\<rparr>;
                       cc = curses_color_new env fg' bg';
                       ac = attr_color rcol;
                       ac = ac\<lparr>curses_color := cc\<rparr>;
                       ac = ac\<lparr>attrs := attrs'\<rparr>;
                       rcol = rcol\<lparr>attr_color := ac\<rparr>;
                       st = st\<lparr>lists := (lists st)(rcl := lists st rcl @ [rcol])\<rparr>
                   in add_pattern_notify is_index st)))"

subsection \<open>The two dispatchers\<close>

text \<open>
  \<^verbatim>\<open>regex_colors_parse_color_list\<close>: the result is the returned flag, the value
  written to \<^verbatim>\<open>*rc\<close> (\<open>None\<close> when nothing is written) and the state.
  \<^verbatim>\<open>regex_colors_dump_all\<close> prints debug output only.
\<close>

definition regex_colors_parse_color_list ::
  "Env \<Rightarrow> ColorId \<Rightarrow> string \<Rightarrow> 32 word \<Rightarrow> 32 word \<Rightarrow> int \<Rightarrow> ColorState
     \<Rightarrow> fault + (bool \<times> CommandResult option \<times> ColorState)" where
  "regex_colors_parse_color_list env color' pat fg' bg' attrs' st =
     (case (case color' of
              MT_COLOR_ATTACH_HEADERS \<Rightarrow>
                Some (add_pattern env AttachList pat True fg' bg' attrs' False 0 st)
            | MT_COLOR_BODY \<Rightarrow>
                Some (add_pattern env BodyList pat True fg' bg' attrs' False 0 st)
            | MT_COLOR_HEADER \<Rightarrow>
                Some (add_pattern env HeaderList pat False fg' bg' attrs' False 0 st)
            | MT_COLOR_INDEX \<Rightarrow>
                Some (add_pattern env IndexList pat True fg' bg' attrs' True 0 st)
            | MT_COLOR_INDEX_AUTHOR \<Rightarrow>
                Some (add_pattern env IndexAuthorList pat True fg' bg' attrs' True 0 st)
            | MT_COLOR_INDEX_FLAGS \<Rightarrow>
                Some (add_pattern env IndexFlagsList pat True fg' bg' attrs' True 0 st)
            | MT_COLOR_INDEX_SUBJECT \<Rightarrow>
                Some (add_pattern env IndexSubjectList pat True fg' bg' attrs' True 0 st)
            | MT_COLOR_INDEX_TAG \<Rightarrow>
                Some (add_pattern env IndexTagList pat True fg' bg' attrs' True 0 st)
            | _ \<Rightarrow> None)
      of
        None \<Rightarrow> Inr (False, None, st)
      | Some (Inl f) \<Rightarrow> Inl f
      | Some (Inr (rc, st)) \<Rightarrow> Inr (True, Some rc, st))"

text \<open>\<^verbatim>\<open>regex_colors_parse_status_list\<close>: the result is the returned integer and the state.\<close>

definition regex_colors_parse_status_list ::
  "Env \<Rightarrow> ColorId \<Rightarrow> string \<Rightarrow> 32 word \<Rightarrow> 32 word \<Rightarrow> int \<Rightarrow> int \<Rightarrow> ColorState
     \<Rightarrow> fault + (int \<times> ColorState)" where
  "regex_colors_parse_status_list env color' pat fg' bg' attrs' match' st =
     (if color' \<noteq> MT_COLOR_STATUS then Inr (-1, st)
      else
        (case add_pattern env StatusList pat True fg' bg' attrs' False match' st of
           Inl f \<Rightarrow> Inl f
         | Inr (rc, st) \<Rightarrow> Inr (CommandResult_int rc, st)))"

subsection \<open>A concrete instance\<close>

text \<open>
  One instance of the external capabilities, to run the model on: the regex library
  rejects a pattern with an opening bracket and no closing one (code 7, as
  \<^verbatim>\<open>REG_EBRACK\<close>), the simple-search expansion puts \<^verbatim>\<open>~s\<close> before a text without
  a tilde, the pattern compiler rejects a text that ends in a tilde, the colour
  allocator has no CursesColor for the pair of default colours (\<^verbatim>\<open>COLOR_DEFAULT\<close>, -1),
  and the case test is that of a UTF-8 locale on ASCII and Latin-1 letters: a string is
  lowercase when it has no byte \<^verbatim>\<open>A\<close> to \<^verbatim>\<open>Z\<close> and no capital letter encoded as the
  byte C3 and a byte from 80 to 9E other than 97.
\<close>

fun demo_is_lower :: "string \<Rightarrow> bool" where
  "demo_is_lower [] = True"
| "demo_is_lower [c] = (\<not> is_ascii_upper c)"
| "demo_is_lower (c # d # s) =
     (if (of_char c :: nat) = 195
      then \<not> (128 \<le> (of_char d :: nat) \<and> (of_char d :: nat) \<le> 158 \<and> (of_char d :: nat) \<noteq> 151) \<and>
           demo_is_lower s
      else \<not> is_ascii_upper c \<and> demo_is_lower (d # s))"

definition demo_env :: Env where
  "demo_env =
     \<lparr>REG_COMP = (\<lambda>s flags. if CHR ''['' \<in> set s \<and> CHR '']'' \<notin> set s then 7 else 0),
      c_simple_search = Some ''~f %s | ~s %s'',
      mutt_check_simple = (\<lambda>buf simple. if CHR ''~'' \<in> set buf then buf else ''~s '' @ buf),
      mutt_pattern_comp = (\<lambda>text. if text \<noteq> [] \<and> last text = CHR ''~'' then None
                                    else Some (PatternList text)),
      curses_color_new = (\<lambda>f b. if f = - 1 \<and> b = - 1 then None else Some \<lparr>fg = f, bg = b\<rparr>),
      mutt_mb_is_lower = demo_is_lower\<rparr>"

text \<open>The globals as the program starts: zeroed, then initialised.\<close>

definition zero_state :: ColorState where
  "zero_state = \<lparr>lists = (\<lambda>l. []), ColorsNotify = [], released = []\<rparr>"

definition start_state :: ColorState where
  "start_state = regex_colors_init zero_state"

subsection \<open>Notions for the properties\<close>

text \<open>The comparison of the scan: exact for a case-sensitive list, case-folded otherwise.\<close>

definition pattern_equal :: "bool \<Rightarrow> string \<Rightarrow> string \<Rightarrow> bool" where
  "pattern_equal sensitive a b =
     ((sensitive \<and> mutt_str_equal a b) \<or> (\<not> sensitive \<and> mutt_istr_equal a b))"

text \<open>The flags \<^verbatim>\<open>add_pattern\<close> hands to \<^verbatim>\<open>REG_COMP\<close>, and the text it hands to the pattern compiler.\<close>

abbreviation regex_flags :: "Env \<Rightarrow> bool \<Rightarrow> string \<Rightarrow> 16 word" where
  "regex_flags env sensitive s \<equiv>
     (if sensitive then (if mutt_mb_is_lower env s then REG_ICASE else 0) else REG_ICASE)"

abbreviation simple_expansion :: "Env \<Rightarrow> string \<Rightarrow> string" where
  "simple_expansion env s \<equiv> mutt_check_simple env s (NONULL (c_simple_search env))"

text \<open>Compilation fails: a null compiled pattern for the index, a nonzero code from the regex library otherwise.\<close>

definition compile_fails :: "Env \<Rightarrow> string \<Rightarrow> bool \<Rightarrow> bool \<Rightarrow> bool" where
  "compile_fails env s sensitive is_index =
     (if is_index then mutt_pattern_comp env (simple_expansion env s) = None
      else REG_COMP env s (regex_flags env sensitive s) \<noteq> 0)"

text \<open>The rule that a successful insertion appends.\<close>

definition new_rule ::
  "Env \<Rightarrow> string \<Rightarrow> bool \<Rightarrow> 32 word \<Rightarrow> 32 word \<Rightarrow> int \<Rightarrow> bool \<Rightarrow> int \<Rightarrow> RegexColor" where
  "new_rule env s sensitive f b a is_index m =
     \<lparr>attr_color = \<lparr>curses_color = curses_color_new env f b, attrs = a\<rparr>,
      pattern = s,
      regex = (if is_index then None else Some (Regex s (regex_flags env sensitive s))),
      match = m,
      color_pattern = (if is_index then mutt_pattern_comp env (simple_expansion env s) else None),
      stop_matching = False\<rparr>"

text \<open>The state with the AttrColor of one rule of one list replaced.\<close>

definition set_rule :: "ListId \<Rightarrow> nat \<Rightarrow> AttrColor \<Rightarrow> ColorState \<Rightarrow> ColorState" where
  "set_rule rcl i ac st =
     st\<lparr>lists := (lists st)(rcl := (lists st rcl)[i := (lists st rcl ! i)\<lparr>attr_color := ac\<rparr>])\<rparr>"

text \<open>The classes of the index, which \<^verbatim>\<open>regex_colors_parse_color_list\<close> passes on with \<^verbatim>\<open>is_index\<close> set.\<close>

definition index_class :: "ColorId \<Rightarrow> bool" where
  "index_class c = (c \<in> {MT_COLOR_INDEX, MT_COLOR_INDEX_AUTHOR, MT_COLOR_INDEX_FLAGS,
                          MT_COLOR_INDEX_SUBJECT, MT_COLOR_INDEX_TAG})"

text \<open>
  The case policy of each list: the \<^verbatim>\<open>sensitive\<close> argument the dispatchers pass for it
  (false for the header list only).
\<close>

fun list_sensitive :: "ListId \<Rightarrow> bool" where
  "list_sensitive HeaderList = False"
| "list_sensitive l = True"

text \<open>No pattern of the list equals an earlier one under the policy.\<close>

fun distinct_patterns :: "bool \<Rightarrow> string list \<Rightarrow> bool" where
  "distinct_patterns sensitive [] = True"
| "distinct_patterns sensitive (p # ps) =
     ((\<forall>q \<in> set ps. \<not> pattern_equal sensitive q p) \<and> distinct_patterns sensitive ps)"

definition all_lists :: "ListId list" where
  "all_lists = [AttachList, BodyList, HeaderList, IndexAuthorList, IndexFlagsList, IndexList,
                IndexSubjectList, IndexTagList, StatusList]"

definition registry_inv :: "ColorState \<Rightarrow> bool" where
  "registry_inv st =
     list_all (\<lambda>l. distinct_patterns (list_sensitive l) (map pattern (lists st l))) all_lists"

text \<open>Sequences of calls of the public functions; a fault ends the run.\<close>

datatype call =
    ParseColorList ColorId string "32 word" "32 word" int
  | ParseStatusList ColorId string "32 word" "32 word" int int
  | Clear

fun run_call :: "Env \<Rightarrow> call \<Rightarrow> ColorState \<Rightarrow> fault + ColorState" where
  "run_call env (ParseColorList c pat f b a) st =
     (case regex_colors_parse_color_list env c pat f b a st of
        Inl e \<Rightarrow> Inl e
      | Inr (ok, rc, st') \<Rightarrow> Inr st')"
| "run_call env (ParseStatusList c pat f b a m) st =
     (case regex_colors_parse_status_list env c pat f b a m st of
        Inl e \<Rightarrow> Inl e
      | Inr (rc, st') \<Rightarrow> Inr st')"
| "run_call env Clear st = Inr (regex_colors_clear st)"

fun run_calls :: "Env \<Rightarrow> call list \<Rightarrow> ColorState \<Rightarrow> fault + ColorState" where
  "run_calls env [] st = Inr st"
| "run_calls env (c # cs) st =
     (case run_call env c st of
        Inl e \<Rightarrow> Inl e
      | Inr st' \<Rightarrow> run_calls env cs st')"

section \<open>Properties\<close>

subsection \<open>The paths of add_pattern\<close>

lemma add_pattern_scan_None:
  "add_pattern_scan s sensitive xs = None \<longleftrightarrow>
     (\<forall>r \<in> set xs. \<not> pattern_equal sensitive s (pattern r))"
  by (induction xs) (auto simp: pattern_equal_def)

lemma add_pattern_scan_Some:
  "add_pattern_scan s sensitive xs = Some i \<Longrightarrow>
     i < length xs \<and> pattern_equal sensitive s (pattern (xs ! i)) \<and>
     (\<forall>j < i. \<not> pattern_equal sensitive s (pattern (xs ! j)))"
proof (induction xs arbitrary: i)
  case Nil
  then show ?case by simp
next
  case (Cons r xs)
  show ?case
  proof (cases "pattern_equal sensitive s (pattern r)")
    case True
    with Cons.prems show ?thesis by (auto simp: pattern_equal_def)
  next
    case False
    with Cons.prems obtain k where k: "add_pattern_scan s sensitive xs = Some k" "i = Suc k"
      by (auto simp: pattern_equal_def)
    from Cons.IH [OF k(1)] False k(2) show ?thesis
      by (auto simp: less_Suc_eq_0_disj)
  qed
qed

lemma regex_color_free_new: "regex_color_free (Some regex_color_new) st = (None, st)"
  by (simp add: regex_color_free_def regex_color_clear_def attr_color_clear_def regex_color_new_def)

lemma add_pattern_notify_Inr:
  "add_pattern_notify is_index st = Inr (MUTT_CMD_SUCCESS,
      if is_index then st\<lparr>ColorsNotify := ColorsNotify st @ [\<lparr>color = MT_COLOR_INDEX\<rparr>]\<rparr> else st)"
  by (simp add: add_pattern_notify_def notify_send_def)

lemma add_pattern_keep:
  assumes "add_pattern_scan s sensitive (lists st rcl) = Some i"
      and "\<forall>c. curses_color (attr_color (lists st rcl ! i)) = Some c \<longrightarrow> fg c = f \<and> bg c = b"
  shows "add_pattern env rcl s sensitive f b a is_index m st =
           add_pattern_notify is_index
             (set_rule rcl i ((attr_color (lists st rcl ! i))\<lparr>attrs := a\<rparr>) st)"
  using assms by (simp add: add_pattern_def set_rule_def Let_def split: option.splits)

lemma add_pattern_recolor:
  assumes "add_pattern_scan s sensitive (lists st rcl) = Some i"
      and "curses_color (attr_color (lists st rcl ! i)) = Some c"
      and "fg c \<noteq> f \<or> bg c \<noteq> b"
      and "curses_color_new env f b = Some n"
  shows "add_pattern env rcl s sensitive f b a is_index m st =
           add_pattern_notify is_index
             (set_rule rcl i
                ((attr_color (lists st rcl ! i))
                   \<lparr>curses_color := Some (n\<lparr>fg := f, bg := b\<rparr>), attrs := a\<rparr>)
                (st\<lparr>released := released st @ [c]\<rparr>))"
  using assms by (auto simp: add_pattern_def set_rule_def Let_def attr_color_clear_def)

lemma add_pattern_fault:
  assumes "add_pattern_scan s sensitive (lists st rcl) = Some i"
      and "curses_color (attr_color (lists st rcl ! i)) = Some c"
      and "fg c \<noteq> f \<or> bg c \<noteq> b"
      and "curses_color_new env f b = None"
  shows "add_pattern env rcl s sensitive f b a is_index m st = Inl NullDeref"
  using assms by (auto simp: add_pattern_def Let_def attr_color_clear_def)

lemma add_pattern_compile_error:
  assumes "add_pattern_scan s sensitive (lists st rcl) = None"
      and "compile_fails env s sensitive is_index"
  shows "add_pattern env rcl s sensitive f b a is_index m st = Inr (MUTT_CMD_ERROR, st)"
  using assms by (simp add: add_pattern_def compile_fails_def Let_def regex_color_free_new)

lemma add_pattern_append:
  assumes "add_pattern_scan s sensitive (lists st rcl) = None"
      and "\<not> compile_fails env s sensitive is_index"
  shows "add_pattern env rcl s sensitive f b a is_index m st =
           add_pattern_notify is_index
             (st\<lparr>lists := (lists st)(rcl := lists st rcl @ [new_rule env s sensitive f b a is_index m])\<rparr>)"
  using assms
  by (cases is_index)
     (auto simp: add_pattern_def compile_fails_def Let_def new_rule_def regex_color_new_def
                 mutt_str_dup_def)

text \<open>Every call of \<^verbatim>\<open>add_pattern\<close> takes one of the five paths.\<close>

lemma add_pattern_cases:
  obtains
    (keep) i where
      "add_pattern_scan s sensitive (lists st rcl) = Some i"
      "\<forall>c. curses_color (attr_color (lists st rcl ! i)) = Some c \<longrightarrow> fg c = f \<and> bg c = b"
      "add_pattern env rcl s sensitive f b a is_index m st =
         add_pattern_notify is_index
           (set_rule rcl i ((attr_color (lists st rcl ! i))\<lparr>attrs := a\<rparr>) st)"
  | (recolor) i c n where
      "add_pattern_scan s sensitive (lists st rcl) = Some i"
      "curses_color (attr_color (lists st rcl ! i)) = Some c"
      "fg c \<noteq> f \<or> bg c \<noteq> b"
      "curses_color_new env f b = Some n"
      "add_pattern env rcl s sensitive f b a is_index m st =
         add_pattern_notify is_index
           (set_rule rcl i
              ((attr_color (lists st rcl ! i))
                 \<lparr>curses_color := Some (n\<lparr>fg := f, bg := b\<rparr>), attrs := a\<rparr>)
              (st\<lparr>released := released st @ [c]\<rparr>))"
  | (fault) i c where
      "add_pattern_scan s sensitive (lists st rcl) = Some i"
      "curses_color (attr_color (lists st rcl ! i)) = Some c"
      "fg c \<noteq> f \<or> bg c \<noteq> b"
      "curses_color_new env f b = None"
      "add_pattern env rcl s sensitive f b a is_index m st = Inl NullDeref"
  | (error) 
      "add_pattern_scan s sensitive (lists st rcl) = None"
      "compile_fails env s sensitive is_index"
      "add_pattern env rcl s sensitive f b a is_index m st = Inr (MUTT_CMD_ERROR, st)"
  | (append)
      "add_pattern_scan s sensitive (lists st rcl) = None"
      "\<not> compile_fails env s sensitive is_index"
      "add_pattern env rcl s sensitive f b a is_index m st =
         add_pattern_notify is_index
           (st\<lparr>lists := (lists st)(rcl := lists st rcl @ [new_rule env s sensitive f b a is_index m])\<rparr>)"
proof (cases "add_pattern_scan s sensitive (lists st rcl)")
  case None
  show ?thesis
  proof (cases "compile_fails env s sensitive is_index")
    case True
    from error [OF None True add_pattern_compile_error [OF None True]] show ?thesis .
  next
    case False
    from append [OF None False add_pattern_append [OF None False]] show ?thesis .
  qed
next
  case (Some i)
  show ?thesis
  proof (cases "\<forall>c. curses_color (attr_color (lists st rcl ! i)) = Some c \<longrightarrow> fg c = f \<and> bg c = b")
    case True
    from keep [OF Some True add_pattern_keep [OF Some True]] show ?thesis .
  next
    case False
    then obtain c where c: "curses_color (attr_color (lists st rcl ! i)) = Some c"
      "fg c \<noteq> f \<or> bg c \<noteq> b" by blast
    show ?thesis
    proof (cases "curses_color_new env f b")
      case None
      from fault [OF Some c None add_pattern_fault [OF Some c None]] show ?thesis .
    next
      case (Some n)
      from recolor [OF \<open>add_pattern_scan s sensitive (lists st rcl) = Some i\<close> c Some
          add_pattern_recolor [OF \<open>add_pattern_scan s sensitive (lists st rcl) = Some i\<close> c Some]]
      show ?thesis .
    qed
  qed
qed

lemma add_pattern_notifications:
  assumes "add_pattern env rcl s sensitive f b a is_index m st = Inr (rc, st')"
  shows "(rc = MUTT_CMD_SUCCESS \<or> rc = MUTT_CMD_ERROR) \<and>
         ColorsNotify st' =
           (if rc = MUTT_CMD_SUCCESS \<and> is_index
            then ColorsNotify st @ [\<lparr>color = MT_COLOR_INDEX\<rparr>]
            else ColorsNotify st)"
  using assms
  by (cases rule: add_pattern_cases [of s sensitive st rcl f b env a is_index m])
     (auto simp: add_pattern_notify_Inr set_rule_def)

subsection \<open>The dispatchers\<close>

lemma parse_color_list_supported:
  assumes "regex_colors_get_list color' = Some l" and "color' \<noteq> MT_COLOR_STATUS"
  shows "regex_colors_parse_color_list env color' pat f b a st =
           (case add_pattern env l pat (color' \<noteq> MT_COLOR_HEADER) f b a (index_class color') 0 st of
              Inl e \<Rightarrow> Inl e
            | Inr (rc, st') \<Rightarrow> Inr (True, Some rc, st'))"
  using assms
  by (cases color') (simp_all add: regex_colors_parse_color_list_def index_class_def split: sum.splits)

lemma index_class_list:
  "index_class c \<Longrightarrow> \<exists>l. regex_colors_get_list c = Some l \<and> c \<noteq> MT_COLOR_STATUS \<and> c \<noteq> MT_COLOR_HEADER"
  by (cases c) (simp_all add: index_class_def)

lemma parse_color_list_index:
  assumes "index_class color'"
      and "regex_colors_parse_color_list env color' pat f b a st = Inr (ok, rc, st')"
  shows "\<exists>l r. regex_colors_get_list color' = Some l \<and> ok \<and> rc = Some r \<and>
               add_pattern env l pat True f b a True 0 st = Inr (r, st')"
proof -
  from index_class_list [OF assms(1)] obtain l where
    l: "regex_colors_get_list color' = Some l" "color' \<noteq> MT_COLOR_STATUS" "color' \<noteq> MT_COLOR_HEADER"
    by blast
  from assms show ?thesis
    by (auto simp: parse_color_list_supported [OF l(1,2)] l split: sum.splits)
qed

lemma get_list_unknown:
  "id' \<notin> {MT_COLOR_ATTACH_HEADERS, MT_COLOR_BODY, MT_COLOR_HEADER, MT_COLOR_INDEX,
            MT_COLOR_INDEX_AUTHOR, MT_COLOR_INDEX_FLAGS, MT_COLOR_INDEX_SUBJECT,
            MT_COLOR_INDEX_TAG, MT_COLOR_STATUS} \<Longrightarrow> regex_colors_get_list id' = None"
  by (cases id') simp_all

lemma parse_color_list_unsupported:
  "color' \<notin> {MT_COLOR_ATTACH_HEADERS, MT_COLOR_BODY, MT_COLOR_HEADER, MT_COLOR_INDEX,
              MT_COLOR_INDEX_AUTHOR, MT_COLOR_INDEX_FLAGS, MT_COLOR_INDEX_SUBJECT,
              MT_COLOR_INDEX_TAG} \<Longrightarrow>
   regex_colors_parse_color_list env color' pat f b a st = Inr (False, None, st)"
  by (cases color') (simp_all add: regex_colors_parse_color_list_def)

subsection \<open>Failed compilation\<close>

text \<open>
  C3. Whenever the pattern is not in the list yet and its compilation fails (a null
  compiled pattern for an index class, a nonzero code of the regex library otherwise),
  \<^verbatim>\<open>add_pattern\<close> returns \<^verbatim>\<open>MUTT_CMD_ERROR\<close> and the whole state, every list in it, is
  what it was before the call; and no call that returns anything but success changes
  the state.
\<close>

theorem add_pattern_failure_unchanged:
  "(add_pattern_scan s sensitive (lists st rcl) = None \<and> compile_fails env s sensitive is_index
      \<longrightarrow> add_pattern env rcl s sensitive f b a is_index m st = Inr (MUTT_CMD_ERROR, st)) \<and>
   (\<forall>rc st'. add_pattern env rcl s sensitive f b a is_index m st = Inr (rc, st') \<and>
              rc \<noteq> MUTT_CMD_SUCCESS
      \<longrightarrow> rc = MUTT_CMD_ERROR \<and> st' = st)"
proof (intro conjI allI impI)
  assume "add_pattern_scan s sensitive (lists st rcl) = None \<and> compile_fails env s sensitive is_index"
  then show "add_pattern env rcl s sensitive f b a is_index m st = Inr (MUTT_CMD_ERROR, st)"
    by (simp add: add_pattern_compile_error)
next
  fix rc st'
  assume r: "add_pattern env rcl s sensitive f b a is_index m st = Inr (rc, st') \<and>
             rc \<noteq> MUTT_CMD_SUCCESS"
  then show "rc = MUTT_CMD_ERROR"
    by (cases rule: add_pattern_cases [of s sensitive st rcl f b env a is_index m])
       (auto simp: add_pattern_notify_Inr)
  from r show "st' = st"
    by (cases rule: add_pattern_cases [of s sensitive st rcl f b env a is_index m])
       (auto simp: add_pattern_notify_Inr)
qed

theorem add_pattern_failure_unchanged_witness:
  "\<exists>st1. run_calls demo_env [ParseColorList MT_COLOR_BODY ''foo'' 1 0 0] start_state = Inr st1 \<and>
         map pattern (lists st1 BodyList) = [''foo''] \<and>
         add_pattern demo_env BodyList ''[a'' True 2 0 0 False 0 st1 = Inr (MUTT_CMD_ERROR, st1) \<and>
         add_pattern demo_env IndexList ''~'' True 2 0 0 True 0 st1 = Inr (MUTT_CMD_ERROR, st1)"
proof -
  have "case run_calls demo_env [ParseColorList MT_COLOR_BODY ''foo'' 1 0 0] start_state of
          Inl e \<Rightarrow> False
        | Inr st1 \<Rightarrow> map pattern (lists st1 BodyList) = [''foo''] \<and>
            add_pattern_scan ''[a'' True (lists st1 BodyList) = None \<and>
            compile_fails demo_env ''[a'' True False \<and>
            add_pattern_scan ''~'' True (lists st1 IndexList) = None \<and>
            compile_fails demo_env ''~'' True True"
    by code_simp
  then obtain st1 where
    st1: "run_calls demo_env [ParseColorList MT_COLOR_BODY ''foo'' 1 0 0] start_state = Inr st1"
      "map pattern (lists st1 BodyList) = [''foo'']"
      "add_pattern_scan ''[a'' True (lists st1 BodyList) = None \<and> compile_fails demo_env ''[a'' True False"
      "add_pattern_scan ''~'' True (lists st1 IndexList) = None \<and> compile_fails demo_env ''~'' True True"
    by (auto split: sum.splits)
  from add_pattern_failure_unchanged [of "''[a''" True st1 BodyList demo_env False 2 0 0 0,
      THEN conjunct1, THEN mp, OF st1(3)]
  have a: "add_pattern demo_env BodyList ''[a'' True 2 0 0 False 0 st1 = Inr (MUTT_CMD_ERROR, st1)" .
  from add_pattern_failure_unchanged [of "''~''" True st1 IndexList demo_env True 2 0 0 0,
      THEN conjunct1, THEN mp, OF st1(4)]
  have b: "add_pattern demo_env IndexList ''~'' True 2 0 0 True 0 st1 = Inr (MUTT_CMD_ERROR, st1)" .
  show ?thesis
    by (rule exI [of _ st1]) (simp only: st1(1,2) a b simp_thms)
qed

subsection \<open>Notifications\<close>

text \<open>
  C4. For each of the five index classes, a call of
  \<^verbatim>\<open>regex_colors_parse_color_list\<close> that returns is either a success, and then the
  notifications sent are those sent before and exactly one more, on the insert path
  and on the update path alike, or a compile error, and then no notification is sent.
\<close>

theorem index_notification_count:
  assumes "index_class color'"
      and "regex_colors_parse_color_list env color' pat f b a st = Inr (ok, rc, st')"
  shows "ok \<and> (rc = Some MUTT_CMD_SUCCESS \<or> rc = Some MUTT_CMD_ERROR) \<and>
         (rc = Some MUTT_CMD_SUCCESS \<longrightarrow>
            length (ColorsNotify st') = length (ColorsNotify st) + 1 \<and>
            take (length (ColorsNotify st)) (ColorsNotify st') = ColorsNotify st) \<and>
         (rc = Some MUTT_CMD_ERROR \<longrightarrow> ColorsNotify st' = ColorsNotify st)"
proof -
  from parse_color_list_index [OF assms] obtain l r where
    r: "ok" "rc = Some r" "add_pattern env l pat True f b a True 0 st = Inr (r, st')"
    by blast
  from add_pattern_notifications [OF r(3)] r(1,2) show ?thesis by auto
qed

theorem index_notification_count_witness:
  "\<exists>st1 st2 st3.
     regex_colors_parse_color_list demo_env MT_COLOR_INDEX_SUBJECT ''foo'' 1 0 0 start_state
       = Inr (True, Some MUTT_CMD_SUCCESS, st1) \<and>
     length (ColorsNotify st1) = length (ColorsNotify start_state) + 1 \<and>
     regex_colors_parse_color_list demo_env MT_COLOR_INDEX_SUBJECT ''foo'' 2 0 0 st1
       = Inr (True, Some MUTT_CMD_SUCCESS, st2) \<and>
     length (lists st2 IndexSubjectList) = 1 \<and>
     length (ColorsNotify st2) = length (ColorsNotify st1) + 1 \<and>
     regex_colors_parse_color_list demo_env MT_COLOR_INDEX_SUBJECT ''~'' 2 0 0 st2
       = Inr (True, Some MUTT_CMD_ERROR, st3) \<and>
     ColorsNotify st3 = ColorsNotify st2"
proof -
  have "case regex_colors_parse_color_list demo_env MT_COLOR_INDEX_SUBJECT ''foo'' 1 0 0 start_state of
          Inl e \<Rightarrow> False
        | Inr (ok1, rc1, st1) \<Rightarrow> ok1 \<and> rc1 = Some MUTT_CMD_SUCCESS \<and>
            (case regex_colors_parse_color_list demo_env MT_COLOR_INDEX_SUBJECT ''foo'' 2 0 0 st1 of
               Inl e \<Rightarrow> False
             | Inr (ok2, rc2, st2) \<Rightarrow> ok2 \<and> rc2 = Some MUTT_CMD_SUCCESS \<and>
                 length (lists st2 IndexSubjectList) = 1 \<and>
                 (case regex_colors_parse_color_list demo_env MT_COLOR_INDEX_SUBJECT ''~'' 2 0 0 st2 of
                    Inl e \<Rightarrow> False
                  | Inr (ok3, rc3, st3) \<Rightarrow> ok3 \<and> rc3 = Some MUTT_CMD_ERROR))"
    by code_simp
  then obtain st1 where
    r1: "regex_colors_parse_color_list demo_env MT_COLOR_INDEX_SUBJECT ''foo'' 1 0 0 start_state
           = Inr (True, Some MUTT_CMD_SUCCESS, st1)" and
    e2: "case regex_colors_parse_color_list demo_env MT_COLOR_INDEX_SUBJECT ''foo'' 2 0 0 st1 of
               Inl e \<Rightarrow> False
             | Inr (ok2, rc2, st2) \<Rightarrow> ok2 \<and> rc2 = Some MUTT_CMD_SUCCESS \<and>
                 length (lists st2 IndexSubjectList) = 1 \<and>
                 (case regex_colors_parse_color_list demo_env MT_COLOR_INDEX_SUBJECT ''~'' 2 0 0 st2 of
                    Inl e \<Rightarrow> False
                  | Inr (ok3, rc3, st3) \<Rightarrow> ok3 \<and> rc3 = Some MUTT_CMD_ERROR)"
    by (cases "regex_colors_parse_color_list demo_env MT_COLOR_INDEX_SUBJECT ''foo'' 1 0 0 start_state")
       auto
  from e2 obtain st2 where
    r2: "regex_colors_parse_color_list demo_env MT_COLOR_INDEX_SUBJECT ''foo'' 2 0 0 st1
           = Inr (True, Some MUTT_CMD_SUCCESS, st2)" and
    n2: "length (lists st2 IndexSubjectList) = 1" and
    e3: "case regex_colors_parse_color_list demo_env MT_COLOR_INDEX_SUBJECT ''~'' 2 0 0 st2 of
           Inl e \<Rightarrow> False
         | Inr (ok3, rc3, st3) \<Rightarrow> ok3 \<and> rc3 = Some MUTT_CMD_ERROR"
    by (cases "regex_colors_parse_color_list demo_env MT_COLOR_INDEX_SUBJECT ''foo'' 2 0 0 st1")
       auto
  from e3 obtain st3 where
    r3: "regex_colors_parse_color_list demo_env MT_COLOR_INDEX_SUBJECT ''~'' 2 0 0 st2
           = Inr (True, Some MUTT_CMD_ERROR, st3)"
    by (cases "regex_colors_parse_color_list demo_env MT_COLOR_INDEX_SUBJECT ''~'' 2 0 0 st2")
       auto
  have ix: "index_class MT_COLOR_INDEX_SUBJECT" by (simp add: index_class_def)
  from index_notification_count [OF ix r1]
  have c1: "length (ColorsNotify st1) = length (ColorsNotify start_state) + 1" by simp
  from index_notification_count [OF ix r2]
  have c2: "length (ColorsNotify st2) = length (ColorsNotify st1) + 1" by simp
  from index_notification_count [OF ix r3]
  have c3: "ColorsNotify st3 = ColorsNotify st2" by simp
  show ?thesis
    by (rule exI [of _ st1], rule exI [of _ st2], rule exI [of _ st3])
       (simp only: r1 r2 r3 n2 c1 c2 c3 simp_thms)
qed

text \<open>
  C5, as amended. For each of the five index classes, the notification of a successful
  \<^verbatim>\<open>regex_colors_parse_color_list\<close> carries \<^verbatim>\<open>MT_COLOR_INDEX\<close>, the identifier of
  the generic index class, whichever of the five classes was modified.
\<close>

theorem index_notification_payload:
  assumes "index_class color'"
      and "regex_colors_parse_color_list env color' pat f b a st = Inr (ok, Some MUTT_CMD_SUCCESS, st')"
  shows "ColorsNotify st' = ColorsNotify st @ [\<lparr>color = MT_COLOR_INDEX\<rparr>]"
proof -
  from parse_color_list_index [OF assms] obtain l where
    "add_pattern env l pat True f b a True 0 st = Inr (MUTT_CMD_SUCCESS, st')"
    by auto
  from add_pattern_notifications [OF this] show ?thesis by simp
qed

theorem index_notification_payload_witness:
  "\<exists>st1. regex_colors_parse_color_list demo_env MT_COLOR_INDEX_AUTHOR ''foo'' 1 0 0 start_state
           = Inr (True, Some MUTT_CMD_SUCCESS, st1) \<and>
         ColorsNotify st1 = ColorsNotify start_state @ [\<lparr>color = MT_COLOR_INDEX\<rparr>]"
proof -
  have "case regex_colors_parse_color_list demo_env MT_COLOR_INDEX_AUTHOR ''foo'' 1 0 0 start_state of
          Inl e \<Rightarrow> False
        | Inr (ok1, rc1, st1) \<Rightarrow> ok1 \<and> rc1 = Some MUTT_CMD_SUCCESS"
    by code_simp
  then obtain st1 where
    r1: "regex_colors_parse_color_list demo_env MT_COLOR_INDEX_AUTHOR ''foo'' 1 0 0 start_state
           = Inr (True, Some MUTT_CMD_SUCCESS, st1)"
    by (auto split: sum.splits)
  have ix: "index_class MT_COLOR_INDEX_AUTHOR" by (simp add: index_class_def)
  from index_notification_payload [OF ix r1] r1 show ?thesis by simp
qed

text \<open>
  C5, as stated, fails: the first rule registered for the index-author class sends
  one notification, and it carries the identifier of the generic index class, not
  \<^verbatim>\<open>MT_COLOR_INDEX_AUTHOR\<close>.
\<close>

theorem index_notification_own_class_counterexample:
  "case regex_colors_parse_color_list demo_env MT_COLOR_INDEX_AUTHOR ''foo'' 1 0 0 start_state of
     Inl e \<Rightarrow> False
   | Inr (ok, rc, st') \<Rightarrow>
       ok \<and> rc = Some MUTT_CMD_SUCCESS \<and>
       map color (ColorsNotify st') = [MT_COLOR_INDEX] \<and>
       map color (ColorsNotify st') \<noteq> [MT_COLOR_INDEX_AUTHOR]"
  by code_simp

text \<open>
  C9. \<^verbatim>\<open>regex_colors_get_list\<close> returns a null pointer for every identifier other
  than the nine classes; \<^verbatim>\<open>regex_colors_parse_color_list\<close> returns false, writes no
  result code and leaves the state as it is for every identifier other than its eight
  classes; \<^verbatim>\<open>regex_colors_parse_status_list\<close> returns -1 and leaves the state as it is
  for every identifier other than \<^verbatim>\<open>MT_COLOR_STATUS\<close>.
\<close>

theorem unsupported_class_untouched:
  "(id' \<notin> {MT_COLOR_ATTACH_HEADERS, MT_COLOR_BODY, MT_COLOR_HEADER, MT_COLOR_INDEX,
            MT_COLOR_INDEX_AUTHOR, MT_COLOR_INDEX_FLAGS, MT_COLOR_INDEX_SUBJECT,
            MT_COLOR_INDEX_TAG, MT_COLOR_STATUS}
      \<longrightarrow> regex_colors_get_list id' = None) \<and>
   (color' \<notin> {MT_COLOR_ATTACH_HEADERS, MT_COLOR_BODY, MT_COLOR_HEADER, MT_COLOR_INDEX,
              MT_COLOR_INDEX_AUTHOR, MT_COLOR_INDEX_FLAGS, MT_COLOR_INDEX_SUBJECT,
              MT_COLOR_INDEX_TAG}
      \<longrightarrow> regex_colors_parse_color_list env color' pat f b a st = Inr (False, None, st)) \<and>
   (color'' \<noteq> MT_COLOR_STATUS
      \<longrightarrow> regex_colors_parse_status_list env color'' pat f b a m st = Inr (- 1, st))"
  using get_list_unknown [of id'] parse_color_list_unsupported [of color' env pat f b a st]
  by (simp add: regex_colors_parse_status_list_def)

theorem unsupported_class_untouched_witness:
  "regex_colors_get_list (MT_COLOR_OTHER 7) = None \<and>
   regex_colors_parse_color_list demo_env MT_COLOR_STATUS ''foo'' 1 0 0 start_state
     = Inr (False, None, start_state) \<and>
   regex_colors_parse_status_list demo_env MT_COLOR_BODY ''foo'' 1 0 0 0 start_state
     = Inr (- 1, start_state)"
  using unsupported_class_untouched
          [of "MT_COLOR_OTHER 7" MT_COLOR_STATUS demo_env "''foo''" 1 0 0 start_state MT_COLOR_BODY 0]
  by simp

subsection \<open>Clearing\<close>

lemma regex_color_free_Some:
  "regex_color_free (Some r) st =
     (None, st\<lparr>released := released st @ (case curses_color (attr_color r) of None \<Rightarrow> [] | Some c \<Rightarrow> [c])\<rparr>)"
  by (simp add: regex_color_free_def regex_color_clear_def attr_color_clear_def Let_def
           split: option.splits)

lemma regex_color_list_clear_loop_result:
  "lists st rcl = xs \<Longrightarrow>
   regex_color_list_clear_loop xs rcl st =
     st\<lparr>lists := (lists st)(rcl := []),
        released := released st @ List.map_filter (\<lambda>r. curses_color (attr_color r)) xs\<rparr>"
proof (induction xs arbitrary: st)
  case Nil
  then show ?case by (simp add: fun_upd_idem)
next
  case (Cons np tmp)
  let ?st1 = "st\<lparr>lists := (lists st)(rcl := tmp),
                  released := released st @
                    (case curses_color (attr_color np) of None \<Rightarrow> [] | Some c \<Rightarrow> [c])\<rparr>"
  have "regex_color_list_clear_loop (np # tmp) rcl st = regex_color_list_clear_loop tmp rcl ?st1"
    using Cons.prems by (simp add: regex_color_free_Some)
  also have "\<dots> = ?st1\<lparr>lists := (lists ?st1)(rcl := []),
                       released := released ?st1 @
                         List.map_filter (\<lambda>r. curses_color (attr_color r)) tmp\<rparr>"
    by (rule Cons.IH) simp
  also have "\<dots> = st\<lparr>lists := (lists st)(rcl := []),
                      released := released st @
                        List.map_filter (\<lambda>r. curses_color (attr_color r)) (np # tmp)\<rparr>"
    by (simp split: option.splits)
  finally show ?case .
qed

lemma regex_color_list_clear_Some:
  "regex_color_list_clear (Some l) st =
     st\<lparr>lists := (lists st)(l := []),
        released := released st @ List.map_filter (\<lambda>r. curses_color (attr_color r)) (lists st l)\<rparr>"
  by (simp add: regex_color_list_clear_def regex_color_list_clear_loop_result)

lemma regex_colors_clear_lists: "lists (regex_colors_clear st) l = []"
  by (cases l) (simp_all add: regex_colors_clear_def regex_color_list_clear_Some Let_def)

lemma regex_colors_clear_ColorsNotify: "ColorsNotify (regex_colors_clear st) = ColorsNotify st"
  by (simp add: regex_colors_clear_def regex_color_list_clear_Some Let_def)

lemma regex_colors_clear_empty:
  assumes "\<forall>l. lists st l = []"
  shows "regex_colors_clear st = st"
proof -
  have step: "regex_color_list_clear (Some l) st = st" for l
    using assms by (simp add: regex_color_list_clear_Some fun_upd_idem)
  show ?thesis
    by (simp add: regex_colors_clear_def Let_def step)
qed

text \<open>
  C10. \<^verbatim>\<open>regex_colors_clear\<close> empties each of the nine lists and sends no
  notification; clearing twice is clearing once; on a registry whose lists are all
  empty it changes nothing; \<^verbatim>\<open>regex_color_list_clear\<close> empties the list it is given
  and tolerates a null pointer; after clearing, \<^verbatim>\<open>regex_colors_get_list\<close> returns, for
  each of the nine classes, a list and not a null pointer, and that list is empty; and
  the first pattern registered into any cleared list, if it compiles, is accepted and is
  then the only rule of that list.
\<close>

theorem regex_colors_clear_idempotent:
  "(\<forall>l. lists (regex_colors_clear st) l = []) \<and>
   ColorsNotify (regex_colors_clear st) = ColorsNotify st \<and>
   regex_colors_clear (regex_colors_clear st) = regex_colors_clear st \<and>
   ((\<forall>l. lists st l = []) \<longrightarrow> regex_colors_clear st = st) \<and>
   lists (regex_color_list_clear (Some rcl) st) rcl = [] \<and>
   regex_color_list_clear None st = st \<and>
   (\<forall>l. regex_colors_get_list id' = Some l \<longrightarrow> lists (regex_colors_clear st) l = []) \<and>
   (id' \<in> {MT_COLOR_ATTACH_HEADERS, MT_COLOR_BODY, MT_COLOR_HEADER, MT_COLOR_INDEX,
            MT_COLOR_INDEX_AUTHOR, MT_COLOR_INDEX_FLAGS, MT_COLOR_INDEX_SUBJECT,
            MT_COLOR_INDEX_TAG, MT_COLOR_STATUS}
      \<longrightarrow> (\<exists>l. regex_colors_get_list id' = Some l \<and> lists (regex_colors_clear st) l = [])) \<and>
   (\<not> compile_fails env s sensitive is_index \<longrightarrow>
      (\<exists>st'. add_pattern env rcl s sensitive f b a is_index m (regex_colors_clear st)
                = Inr (MUTT_CMD_SUCCESS, st') \<and>
             lists st' rcl = [new_rule env s sensitive f b a is_index m]))"
proof -
  have empty: "\<forall>l. lists (regex_colors_clear st) l = []"
    by (simp add: regex_colors_clear_lists)
  have twice: "regex_colors_clear (regex_colors_clear st) = regex_colors_clear st"
    by (rule regex_colors_clear_empty) (rule empty)
  have one: "lists (regex_color_list_clear (Some rcl) st) rcl = []"
    by (simp add: regex_color_list_clear_Some)
  have null: "regex_color_list_clear None st = st"
    by (simp add: regex_color_list_clear_def)
  have reuse: "\<exists>st'. add_pattern env rcl s sensitive f b a is_index m (regex_colors_clear st)
                  = Inr (MUTT_CMD_SUCCESS, st') \<and>
               lists st' rcl = [new_rule env s sensitive f b a is_index m]"
    if ok: "\<not> compile_fails env s sensitive is_index"
  proof -
    have "add_pattern_scan s sensitive (lists (regex_colors_clear st) rcl) = None"
      by (simp add: regex_colors_clear_lists)
    from add_pattern_append [OF this ok] show ?thesis
      by (simp add: add_pattern_notify_Inr regex_colors_clear_lists)
  qed
  have known: "\<exists>l. regex_colors_get_list id' = Some l \<and> lists (regex_colors_clear st) l = []"
    if "id' \<in> {MT_COLOR_ATTACH_HEADERS, MT_COLOR_BODY, MT_COLOR_HEADER, MT_COLOR_INDEX,
                MT_COLOR_INDEX_AUTHOR, MT_COLOR_INDEX_FLAGS, MT_COLOR_INDEX_SUBJECT,
                MT_COLOR_INDEX_TAG, MT_COLOR_STATUS}"
    using that by (cases id') (simp_all add: regex_colors_clear_lists)
  from empty twice one null reuse known regex_colors_clear_empty [of st] show ?thesis
    by (simp only: regex_colors_clear_ColorsNotify simp_thms) blast
qed

theorem regex_colors_clear_idempotent_witness:
  "\<exists>st1. run_calls demo_env [ParseColorList MT_COLOR_BODY ''foo'' 1 0 0,
                              ParseColorList MT_COLOR_INDEX ''~f me'' 2 0 0] start_state = Inr st1 \<and>
         length (lists st1 BodyList) = 1 \<and> length (lists st1 IndexList) = 1 \<and>
         (\<forall>l. lists (regex_colors_clear st1) l = []) \<and>
         regex_colors_clear (regex_colors_clear st1) = regex_colors_clear st1 \<and>
         regex_colors_clear start_state = start_state \<and>
         regex_colors_get_list MT_COLOR_BODY = Some BodyList \<and>
         lists (regex_colors_clear st1) BodyList = [] \<and>
         (\<exists>l. regex_colors_get_list MT_COLOR_BODY = Some l \<and> lists (regex_colors_clear st1) l = []) \<and>
         (\<exists>l. regex_colors_get_list MT_COLOR_INDEX_TAG = Some l \<and> lists (regex_colors_clear st1) l = []) \<and>
         (\<exists>l. regex_colors_get_list MT_COLOR_STATUS = Some l \<and> lists (regex_colors_clear st1) l = []) \<and>
         (\<exists>st'. add_pattern demo_env BodyList ''bar'' True 3 0 0 False 0 (regex_colors_clear st1)
                   = Inr (MUTT_CMD_SUCCESS, st') \<and>
                lists st' BodyList = [new_rule demo_env ''bar'' True 3 0 0 False 0])"
proof -
  have "case run_calls demo_env [ParseColorList MT_COLOR_BODY ''foo'' 1 0 0,
                                 ParseColorList MT_COLOR_INDEX ''~f me'' 2 0 0] start_state of
          Inl e \<Rightarrow> False
        | Inr st1 \<Rightarrow> length (lists st1 BodyList) = 1 \<and> length (lists st1 IndexList) = 1"
    by code_simp
  then obtain st1 where
    r: "run_calls demo_env [ParseColorList MT_COLOR_BODY ''foo'' 1 0 0,
                            ParseColorList MT_COLOR_INDEX ''~f me'' 2 0 0] start_state = Inr st1" and
    n: "length (lists st1 BodyList) = 1" "length (lists st1 IndexList) = 1"
    by (cases "run_calls demo_env [ParseColorList MT_COLOR_BODY ''foo'' 1 0 0,
                                   ParseColorList MT_COLOR_INDEX ''~f me'' 2 0 0] start_state") auto
  have e: "\<forall>l. lists start_state l = []"
    by (simp add: start_state_def zero_state_def regex_colors_init_def STAILQ_INIT_def)
  have c: "\<not> compile_fails demo_env ''bar'' True False" by code_simp
  have g: "regex_colors_get_list MT_COLOR_BODY = Some BodyList" by simp
  from regex_colors_clear_idempotent [of st1 BodyList MT_COLOR_BODY demo_env "''bar''" True False 3 0 0 0]
    c g
  have a: "(\<forall>l. lists (regex_colors_clear st1) l = []) \<and>
           regex_colors_clear (regex_colors_clear st1) = regex_colors_clear st1 \<and>
           lists (regex_colors_clear st1) BodyList = [] \<and>
           (\<exists>st'. add_pattern demo_env BodyList ''bar'' True 3 0 0 False 0 (regex_colors_clear st1)
                   = Inr (MUTT_CMD_SUCCESS, st') \<and>
                lists st' BodyList = [new_rule demo_env ''bar'' True 3 0 0 False 0])"
    by simp
  from regex_colors_clear_idempotent [of start_state BodyList MT_COLOR_BODY demo_env "''bar''" True False 3 0 0 0]
    e
  have b: "regex_colors_clear start_state = start_state" by simp
  from regex_colors_clear_idempotent [of st1 BodyList MT_COLOR_BODY demo_env "''bar''" True False 3 0 0 0]
  have k1: "\<exists>l. regex_colors_get_list MT_COLOR_BODY = Some l \<and> lists (regex_colors_clear st1) l = []"
    by simp
  from regex_colors_clear_idempotent [of st1 BodyList MT_COLOR_INDEX_TAG demo_env "''bar''" True False 3 0 0 0]
  have k2: "\<exists>l. regex_colors_get_list MT_COLOR_INDEX_TAG = Some l \<and> lists (regex_colors_clear st1) l = []"
    by simp
  from regex_colors_clear_idempotent [of st1 BodyList MT_COLOR_STATUS demo_env "''bar''" True False 3 0 0 0]
  have k3: "\<exists>l. regex_colors_get_list MT_COLOR_STATUS = Some l \<and> lists (regex_colors_clear st1) l = []"
    by simp
  show ?thesis
    by (rule exI [of _ st1]) (use r n a b g k1 k2 k3 in simp)
qed

subsection \<open>Effect of a call on the lists\<close>

lemma set_rule_lists:
  "lists (set_rule rcl i ac st) l =
     (if l = rcl then (lists st rcl)[i := (lists st rcl ! i)\<lparr>attr_color := ac\<rparr>] else lists st l)"
  by (simp add: set_rule_def)

lemma set_rule_patterns:
  "map pattern (lists (set_rule rcl i ac st) l) = map pattern (lists st l)"
  by (cases "i < length (lists st rcl)")
     (simp_all add: set_rule_lists map_update list_update_same_conv list_update_beyond)

lemma set_rule_other: "ColorsNotify (set_rule rcl i ac st) = ColorsNotify st"
  "released (set_rule rcl i ac st) = released st"
  by (simp_all add: set_rule_def)

lemma add_pattern_patterns:
  assumes "add_pattern env rcl s sensitive f b a is_index m st = Inr (rc, st')"
  shows "map pattern (lists st' l) =
           map pattern (lists st l) @
             (if l = rcl \<and> rc = MUTT_CMD_SUCCESS \<and> add_pattern_scan s sensitive (lists st rcl) = None
              then [s] else [])"
  using assms
  by (cases rule: add_pattern_cases [of s sensitive st rcl f b env a is_index m])
     (auto simp: add_pattern_notify_Inr set_rule_patterns new_rule_def)

subsection \<open>The update path\<close>

text \<open>
  C8. When the pattern is found and the rule's \<^verbatim>\<open>curses_color\<close> is null, the call
  succeeds, the rule keeps a null \<^verbatim>\<open>curses_color\<close> whatever colours are requested, no
  handle is released, and only the style flags of that rule are replaced. And whenever
  an update changes the rule's \<^verbatim>\<open>curses_color\<close> or releases a handle, the rule had a
  handle whose colours differ from the requested ones.
\<close>

theorem update_without_handle_keeps_colors:
  "(add_pattern_scan s sensitive (lists st rcl) = Some i \<and>
    curses_color (attr_color (lists st rcl ! i)) = None
      \<longrightarrow> (\<exists>st'. add_pattern env rcl s sensitive f b a is_index m st = Inr (MUTT_CMD_SUCCESS, st') \<and>
                 lists st' = (lists st)(rcl := (lists st rcl)
                     [i := (lists st rcl ! i)\<lparr>attr_color := \<lparr>curses_color = None, attrs = a\<rparr>\<rparr>]) \<and>
                 released st' = released st)) \<and>
   (\<forall>rc st'. add_pattern_scan s sensitive (lists st rcl) = Some i \<and>
             add_pattern env rcl s sensitive f b a is_index m st = Inr (rc, st') \<and>
             (curses_color (attr_color (lists st' rcl ! i)) \<noteq> curses_color (attr_color (lists st rcl ! i)) \<or>
              released st' \<noteq> released st)
      \<longrightarrow> (\<exists>c. curses_color (attr_color (lists st rcl ! i)) = Some c \<and> (fg c \<noteq> f \<or> bg c \<noteq> b)))"
proof (intro conjI allI impI)
  assume h: "add_pattern_scan s sensitive (lists st rcl) = Some i \<and>
             curses_color (attr_color (lists st rcl ! i)) = None"
  then have none: "\<forall>c. curses_color (attr_color (lists st rcl ! i)) = Some c \<longrightarrow> fg c = f \<and> bg c = b"
    by simp
  have "(attr_color (lists st rcl ! i))\<lparr>attrs := a\<rparr> = \<lparr>curses_color = None, attrs = a\<rparr>"
    using h by (cases "attr_color (lists st rcl ! i)") simp
  with add_pattern_keep [OF conjunct1 [OF h] none, of env a is_index m]
  show "\<exists>st'. add_pattern env rcl s sensitive f b a is_index m st = Inr (MUTT_CMD_SUCCESS, st') \<and>
              lists st' = (lists st)(rcl := (lists st rcl)
                  [i := (lists st rcl ! i)\<lparr>attr_color := \<lparr>curses_color = None, attrs = a\<rparr>\<rparr>]) \<and>
              released st' = released st"
    by (simp add: add_pattern_notify_Inr set_rule_def)
next
  fix rc st'
  assume h: "add_pattern_scan s sensitive (lists st rcl) = Some i \<and>
             add_pattern env rcl s sensitive f b a is_index m st = Inr (rc, st') \<and>
             (curses_color (attr_color (lists st' rcl ! i)) \<noteq> curses_color (attr_color (lists st rcl ! i)) \<or>
              released st' \<noteq> released st)"
  then have i: "i < length (lists st rcl)"
    using add_pattern_scan_Some [of s sensitive "lists st rcl" i] by simp
  show "\<exists>c. curses_color (attr_color (lists st rcl ! i)) = Some c \<and> (fg c \<noteq> f \<or> bg c \<noteq> b)"
  proof (rule ccontr)
    assume "\<not> (\<exists>c. curses_color (attr_color (lists st rcl ! i)) = Some c \<and> (fg c \<noteq> f \<or> bg c \<noteq> b))"
    then have keep: "\<forall>c. curses_color (attr_color (lists st rcl ! i)) = Some c \<longrightarrow> fg c = f \<and> bg c = b"
      by blast
    from add_pattern_keep [OF conjunct1 [OF h] keep, of env a is_index m] h
    have "Inr (rc, st') =
            add_pattern_notify is_index
              (set_rule rcl i ((attr_color (lists st rcl ! i))\<lparr>attrs := a\<rparr>) st)"
      by simp
    then have "lists st' = lists (set_rule rcl i ((attr_color (lists st rcl ! i))\<lparr>attrs := a\<rparr>) st)"
      and "released st' = released st"
      by (cases is_index; simp add: add_pattern_notify_Inr set_rule_other)+
    then have "curses_color (attr_color (lists st' rcl ! i)) = curses_color (attr_color (lists st rcl ! i))"
              "released st' = released st"
      using i by (simp_all add: set_rule_lists)
    with h show False by simp
  qed
qed

theorem update_without_handle_keeps_colors_witness:
  "\<exists>st1 st2 st3 st4.
     run_calls demo_env [ParseColorList MT_COLOR_BODY ''foo'' (- 1) (- 1) 0] start_state = Inr st1 \<and>
     add_pattern_scan ''foo'' True (lists st1 BodyList) = Some 0 \<and>
     curses_color (attr_color (lists st1 BodyList ! 0)) = None \<and>
     add_pattern demo_env BodyList ''foo'' True 1 0 4 False 0 st1 = Inr (MUTT_CMD_SUCCESS, st2) \<and>
     attr_color (lists st2 BodyList ! 0) = \<lparr>curses_color = None, attrs = 4\<rparr> \<and>
     released st2 = released st1 \<and>
     run_calls demo_env [ParseColorList MT_COLOR_BODY ''foo'' 1 0 0] start_state = Inr st3 \<and>
     add_pattern demo_env BodyList ''foo'' True 2 0 4 False 0 st3 = Inr (MUTT_CMD_SUCCESS, st4) \<and>
     curses_color (attr_color (lists st4 BodyList ! 0)) \<noteq> curses_color (attr_color (lists st3 BodyList ! 0)) \<and>
     (\<exists>c. curses_color (attr_color (lists st3 BodyList ! 0)) = Some c \<and> (fg c \<noteq> 2 \<or> bg c \<noteq> 0))"
proof -
  have "case run_calls demo_env [ParseColorList MT_COLOR_BODY ''foo'' (- 1) (- 1) 0] start_state of
          Inl e \<Rightarrow> False
        | Inr st1 \<Rightarrow>
            length (lists st1 BodyList) = 1 \<and>
            add_pattern_scan ''foo'' True (lists st1 BodyList) = Some 0 \<and>
            curses_color (attr_color (lists st1 BodyList ! 0)) = None"
    by code_simp
  then obtain st1 where
    r1: "run_calls demo_env [ParseColorList MT_COLOR_BODY ''foo'' (- 1) (- 1) 0] start_state = Inr st1" and
    n1: "length (lists st1 BodyList) = 1" and
    s1: "add_pattern_scan ''foo'' True (lists st1 BodyList) = Some 0" and
    c1: "curses_color (attr_color (lists st1 BodyList ! 0)) = None"
    by (cases "run_calls demo_env [ParseColorList MT_COLOR_BODY ''foo'' (- 1) (- 1) 0] start_state")
       auto
  from update_without_handle_keeps_colors
         [of "''foo''" True st1 BodyList 0 demo_env 1 0 4 False 0, THEN conjunct1, THEN mp,
          OF conjI [OF s1 c1]]
  obtain st2 where
    r2: "add_pattern demo_env BodyList ''foo'' True 1 0 4 False 0 st1 = Inr (MUTT_CMD_SUCCESS, st2)" and
    l2: "lists st2 = (lists st1)(BodyList := (lists st1 BodyList)
           [0 := (lists st1 BodyList ! 0)\<lparr>attr_color := \<lparr>curses_color = None, attrs = 4\<rparr>\<rparr>])" and
    f2: "released st2 = released st1"
    by blast
  from l2 n1 have a2: "attr_color (lists st2 BodyList ! 0) = \<lparr>curses_color = None, attrs = 4\<rparr>"
    by simp
  have "case run_calls demo_env [ParseColorList MT_COLOR_BODY ''foo'' 1 0 0] start_state of
          Inl e \<Rightarrow> False
        | Inr st3 \<Rightarrow>
            add_pattern_scan ''foo'' True (lists st3 BodyList) = Some 0 \<and>
            (case add_pattern demo_env BodyList ''foo'' True 2 0 4 False 0 st3 of
               Inl e \<Rightarrow> False
             | Inr (rc4, st4) \<Rightarrow>
                 rc4 = MUTT_CMD_SUCCESS \<and>
                 curses_color (attr_color (lists st4 BodyList ! 0)) \<noteq>
                   curses_color (attr_color (lists st3 BodyList ! 0)))"
    by code_simp
  then obtain st3 where
    r3: "run_calls demo_env [ParseColorList MT_COLOR_BODY ''foo'' 1 0 0] start_state = Inr st3" and
    s3: "add_pattern_scan ''foo'' True (lists st3 BodyList) = Some 0" and
    e4: "case add_pattern demo_env BodyList ''foo'' True 2 0 4 False 0 st3 of
           Inl e \<Rightarrow> False
         | Inr (rc4, st4) \<Rightarrow>
             rc4 = MUTT_CMD_SUCCESS \<and>
             curses_color (attr_color (lists st4 BodyList ! 0)) \<noteq>
               curses_color (attr_color (lists st3 BodyList ! 0))"
    by (cases "run_calls demo_env [ParseColorList MT_COLOR_BODY ''foo'' 1 0 0] start_state") auto
  from e4 obtain st4 where
    r4: "add_pattern demo_env BodyList ''foo'' True 2 0 4 False 0 st3 = Inr (MUTT_CMD_SUCCESS, st4)" and
    d4: "curses_color (attr_color (lists st4 BodyList ! 0)) \<noteq>
           curses_color (attr_color (lists st3 BodyList ! 0))"
    by (cases "add_pattern demo_env BodyList ''foo'' True 2 0 4 False 0 st3") auto
  from update_without_handle_keeps_colors
         [of "''foo''" True st3 BodyList 0 demo_env 2 0 4 False 0, THEN conjunct2, rule_format,
          of MUTT_CMD_SUCCESS st4] s3 r4 d4
  have x: "\<exists>c. curses_color (attr_color (lists st3 BodyList ! 0)) = Some c \<and> (fg c \<noteq> 2 \<or> bg c \<noteq> 0)"
    by simp
  show ?thesis
    by (rule exI [of _ st1], rule exI [of _ st2], rule exI [of _ st3], rule exI [of _ st4])
       (simp only: r1 s1 c1 r2 a2 f2 r3 r4 d4 x simp_thms)
qed

subsection \<open>The flags of a literal pattern\<close>

text \<open>
  C2. A successful insertion of a literal pattern (\<^verbatim>\<open>is_index\<close> false) appends a rule
  whose regex was compiled by \<^verbatim>\<open>REG_COMP\<close> with these flags: for a case-sensitive
  caller, \<^verbatim>\<open>REG_ICASE\<close> when \<^verbatim>\<open>mutt_mb_is_lower\<close> tells that the pattern is entirely
  lowercase, and no flag when it tells that it is not; for a case-insensitive caller,
  \<^verbatim>\<open>REG_ICASE\<close> whatever the pattern.
\<close>

theorem add_pattern_regex_case_flags:
  "REG_ICASE \<noteq> 0 \<and>
   (\<forall>st'. add_pattern_scan s sensitive (lists st rcl) = None \<and>
          add_pattern env rcl s sensitive f b a False m st = Inr (MUTT_CMD_SUCCESS, st')
      \<longrightarrow> (\<exists>r. lists st' rcl = lists st rcl @ [r] \<and>
            (sensitive \<and> mutt_mb_is_lower env s
               \<longrightarrow> regex r = Some (Regex s REG_ICASE) \<and> REG_COMP env s REG_ICASE = 0) \<and>
            (sensitive \<and> \<not> mutt_mb_is_lower env s
               \<longrightarrow> regex r = Some (Regex s 0) \<and> REG_COMP env s 0 = 0) \<and>
            (\<not> sensitive
               \<longrightarrow> regex r = Some (Regex s REG_ICASE) \<and> REG_COMP env s REG_ICASE = 0)))"
proof (intro conjI allI impI)
  show "REG_ICASE \<noteq> 0" by (simp add: REG_ICASE_def)
next
  fix st'
  assume h: "add_pattern_scan s sensitive (lists st rcl) = None \<and>
             add_pattern env rcl s sensitive f b a False m st = Inr (MUTT_CMD_SUCCESS, st')"
  then have ok: "\<not> compile_fails env s sensitive False"
    using add_pattern_compile_error [of s sensitive st rcl env False f b a m] by auto
  from add_pattern_append [OF conjunct1 [OF h] ok, of f b a m] h
  have l: "lists st' rcl = lists st rcl @ [new_rule env s sensitive f b a False m]"
    by (auto simp: add_pattern_notify_Inr)
  from ok have c: "REG_COMP env s (regex_flags env sensitive s) = 0"
    by (simp add: compile_fails_def)
  show "\<exists>r. lists st' rcl = lists st rcl @ [r] \<and>
            (sensitive \<and> mutt_mb_is_lower env s
               \<longrightarrow> regex r = Some (Regex s REG_ICASE) \<and> REG_COMP env s REG_ICASE = 0) \<and>
            (sensitive \<and> \<not> mutt_mb_is_lower env s
               \<longrightarrow> regex r = Some (Regex s 0) \<and> REG_COMP env s 0 = 0) \<and>
            (\<not> sensitive
               \<longrightarrow> regex r = Some (Regex s REG_ICASE) \<and> REG_COMP env s REG_ICASE = 0)"
    using l c
    by (intro exI [of _ "new_rule env s sensitive f b a False m"])
       (auto simp: new_rule_def split: if_splits)
qed

theorem add_pattern_regex_case_flags_witness:
  "\<exists>st1 st2 st3 st4.
     add_pattern demo_env BodyList ''foo'' True 1 0 0 False 0 start_state = Inr (MUTT_CMD_SUCCESS, st1) \<and>
     map regex (lists st1 BodyList) = [Some (Regex ''foo'' REG_ICASE)] \<and>
     add_pattern demo_env BodyList ''Foo'' True 1 0 0 False 0 start_state = Inr (MUTT_CMD_SUCCESS, st2) \<and>
     map regex (lists st2 BodyList) = [Some (Regex ''Foo'' 0)] \<and>
     add_pattern demo_env HeaderList ''Foo'' False 1 0 0 False 0 start_state = Inr (MUTT_CMD_SUCCESS, st3) \<and>
     map regex (lists st3 HeaderList) = [Some (Regex ''Foo'' REG_ICASE)] \<and>
     add_pattern demo_env BodyList [CHR 0xC3, CHR 0x89, CHR ''t'', CHR 0xC3, CHR 0xA9] True 1 0 0 False 0
       start_state = Inr (MUTT_CMD_SUCCESS, st4) \<and>
     map regex (lists st4 BodyList) =
       [Some (Regex [CHR 0xC3, CHR 0x89, CHR ''t'', CHR 0xC3, CHR 0xA9] 0)]"
proof -
  have e: "lists start_state BodyList = []" "lists start_state HeaderList = []"
    by code_simp+
  have lo: "mutt_mb_is_lower demo_env ''foo''" by code_simp
  have up: "\<not> mutt_mb_is_lower demo_env ''Foo''" by code_simp
  have mb: "\<not> mutt_mb_is_lower demo_env [CHR 0xC3, CHR 0x89, CHR ''t'', CHR 0xC3, CHR 0xA9]"
    by code_simp
  have "case add_pattern demo_env BodyList ''foo'' True 1 0 0 False 0 start_state of
          Inl e \<Rightarrow> False | Inr (rc, st1) \<Rightarrow> rc = MUTT_CMD_SUCCESS"
    by code_simp
  then obtain st1 where
    r1: "add_pattern demo_env BodyList ''foo'' True 1 0 0 False 0 start_state = Inr (MUTT_CMD_SUCCESS, st1)"
    by (cases "add_pattern demo_env BodyList ''foo'' True 1 0 0 False 0 start_state") auto
  have "case add_pattern demo_env BodyList ''Foo'' True 1 0 0 False 0 start_state of
          Inl e \<Rightarrow> False | Inr (rc, st2) \<Rightarrow> rc = MUTT_CMD_SUCCESS"
    by code_simp
  then obtain st2 where
    r2: "add_pattern demo_env BodyList ''Foo'' True 1 0 0 False 0 start_state = Inr (MUTT_CMD_SUCCESS, st2)"
    by (cases "add_pattern demo_env BodyList ''Foo'' True 1 0 0 False 0 start_state") auto
  have "case add_pattern demo_env HeaderList ''Foo'' False 1 0 0 False 0 start_state of
          Inl e \<Rightarrow> False | Inr (rc, st3) \<Rightarrow> rc = MUTT_CMD_SUCCESS"
    by code_simp
  then obtain st3 where
    r3: "add_pattern demo_env HeaderList ''Foo'' False 1 0 0 False 0 start_state = Inr (MUTT_CMD_SUCCESS, st3)"
    by (cases "add_pattern demo_env HeaderList ''Foo'' False 1 0 0 False 0 start_state") auto
  have "case add_pattern demo_env BodyList [CHR 0xC3, CHR 0x89, CHR ''t'', CHR 0xC3, CHR 0xA9]
               True 1 0 0 False 0 start_state of
          Inl e \<Rightarrow> False | Inr (rc, st4) \<Rightarrow> rc = MUTT_CMD_SUCCESS"
    by code_simp
  then obtain st4 where
    r4: "add_pattern demo_env BodyList [CHR 0xC3, CHR 0x89, CHR ''t'', CHR 0xC3, CHR 0xA9]
           True 1 0 0 False 0 start_state = Inr (MUTT_CMD_SUCCESS, st4)"
    by (cases "add_pattern demo_env BodyList [CHR 0xC3, CHR 0x89, CHR ''t'', CHR 0xC3, CHR 0xA9]
                 True 1 0 0 False 0 start_state") auto
  from add_pattern_regex_case_flags [of "''foo''" True start_state BodyList demo_env 1 0 0 0] r1 lo
  have p1: "map regex (lists st1 BodyList) = [Some (Regex ''foo'' REG_ICASE)]"
    by (auto simp: e)
  from add_pattern_regex_case_flags [of "''Foo''" True start_state BodyList demo_env 1 0 0 0] r2 up
  have p2: "map regex (lists st2 BodyList) = [Some (Regex ''Foo'' 0)]"
    by (auto simp: e)
  from add_pattern_regex_case_flags [of "''Foo''" False start_state HeaderList demo_env 1 0 0 0] r3
  have p3: "map regex (lists st3 HeaderList) = [Some (Regex ''Foo'' REG_ICASE)]"
    by (auto simp: e)
  from add_pattern_regex_case_flags
         [of "[CHR 0xC3, CHR 0x89, CHR ''t'', CHR 0xC3, CHR 0xA9]" True start_state BodyList
             demo_env 1 0 0 0] r4 mb
  have p4: "map regex (lists st4 BodyList) =
              [Some (Regex [CHR 0xC3, CHR 0x89, CHR ''t'', CHR 0xC3, CHR 0xA9] 0)]"
    by (auto simp: e)
  show ?thesis
    by (rule exI [of _ st1], rule exI [of _ st2], rule exI [of _ st3], rule exI [of _ st4])
       (simp only: r1 r2 r3 r4 p1 p2 p3 p4 simp_thms)
qed

subsection \<open>Uniqueness of patterns\<close>

lemma pattern_equal_refl: "pattern_equal sensitive a a"
  by (cases sensitive) (simp_all add: pattern_equal_def mutt_str_equal_def mutt_istr_equal_def)

lemma pattern_equal_sym: "pattern_equal sensitive a b \<Longrightarrow> pattern_equal sensitive b a"
  by (cases sensitive) (simp_all add: pattern_equal_def mutt_str_equal_def mutt_istr_equal_def)

lemma pattern_equal_trans:
  "pattern_equal sensitive a b \<Longrightarrow> pattern_equal sensitive b c \<Longrightarrow> pattern_equal sensitive a c"
  by (cases sensitive) (simp_all add: pattern_equal_def mutt_str_equal_def mutt_istr_equal_def)

lemma distinct_patterns_append:
  "distinct_patterns sensitive (ps @ [s]) \<longleftrightarrow>
     distinct_patterns sensitive ps \<and> (\<forall>p \<in> set ps. \<not> pattern_equal sensitive s p)"
  by (induction ps) auto

lemma distinct_patterns_nth:
  "distinct_patterns sensitive ps \<longleftrightarrow>
     (\<forall>i j. i < j \<and> j < length ps \<longrightarrow> \<not> pattern_equal sensitive (ps ! j) (ps ! i))"
proof (induction ps)
  case Nil
  show ?case by simp
next
  case (Cons p ps)
  show ?case
  proof
    assume d: "distinct_patterns sensitive (p # ps)"
    show "\<forall>i j. i < j \<and> j < length (p # ps) \<longrightarrow> \<not> pattern_equal sensitive ((p # ps) ! j) ((p # ps) ! i)"
    proof (intro allI impI)
      fix i j
      assume ij: "i < j \<and> j < length (p # ps)"
      then obtain j' where j': "j = Suc j'" "j' < length ps" by (cases j) auto
      show "\<not> pattern_equal sensitive ((p # ps) ! j) ((p # ps) ! i)"
      proof (cases i)
        case 0
        with d j' show ?thesis by simp
      next
        case (Suc i')
        with d j' ij Cons.IH show ?thesis by simp
      qed
    qed
  next
    assume a: "\<forall>i j. i < j \<and> j < length (p # ps) \<longrightarrow> \<not> pattern_equal sensitive ((p # ps) ! j) ((p # ps) ! i)"
    have "\<forall>q \<in> set ps. \<not> pattern_equal sensitive q p"
    proof
      fix q
      assume "q \<in> set ps"
      then obtain k where k: "k < length ps" "ps ! k = q" by (auto simp: in_set_conv_nth)
      from a [rule_format, of 0 "Suc k"] k show "\<not> pattern_equal sensitive q p" by simp
    qed
    moreover have "distinct_patterns sensitive ps"
    proof -
      have "\<forall>i j. i < j \<and> j < length ps \<longrightarrow> \<not> pattern_equal sensitive (ps ! j) (ps ! i)"
      proof (intro allI impI)
        fix i j
        assume "i < j \<and> j < length ps"
        with a [rule_format, of "Suc i" "Suc j"]
        show "\<not> pattern_equal sensitive (ps ! j) (ps ! i)" by simp
      qed
      with Cons.IH show ?thesis by simp
    qed
    ultimately show "distinct_patterns sensitive (p # ps)" by simp
  qed
qed

lemma add_pattern_distinct:
  assumes "add_pattern env rcl s sensitive f b a is_index m st = Inr (rc, st')"
      and "distinct_patterns sensitive (map pattern (lists st rcl))"
  shows "distinct_patterns sensitive (map pattern (lists st' rcl))"
proof (cases "rc = MUTT_CMD_SUCCESS \<and> add_pattern_scan s sensitive (lists st rcl) = None")
  case True
  then have "\<forall>p \<in> set (map pattern (lists st rcl)). \<not> pattern_equal sensitive s p"
    by (simp add: add_pattern_scan_None)
  with assms(2) add_pattern_patterns [OF assms(1), of rcl] True show ?thesis
    by (simp add: distinct_patterns_append)
next
  case False
  with assms(2) add_pattern_patterns [OF assms(1), of rcl] show ?thesis by auto
qed

lemma add_pattern_other_lists:
  assumes "add_pattern env rcl s sensitive f b a is_index m st = Inr (rc, st')" and "l \<noteq> rcl"
  shows "map pattern (lists st' l) = map pattern (lists st l)"
  using add_pattern_patterns [OF assms(1), of l] assms(2) by simp

lemma registry_inv_iff:
  "registry_inv st \<longleftrightarrow> (\<forall>l. distinct_patterns (list_sensitive l) (map pattern (lists st l)))"
proof
  assume r: "registry_inv st"
  show "\<forall>l. distinct_patterns (list_sensitive l) (map pattern (lists st l))"
  proof
    fix l
    have "l \<in> set all_lists" by (cases l) (simp_all add: all_lists_def)
    with r show "distinct_patterns (list_sensitive l) (map pattern (lists st l))"
      by (simp add: registry_inv_def list_all_iff)
  qed
next
  assume "\<forall>l. distinct_patterns (list_sensitive l) (map pattern (lists st l))"
  then show "registry_inv st" by (simp add: registry_inv_def list_all_iff)
qed

lemma add_pattern_registry_inv:
  assumes "add_pattern env rcl s (list_sensitive rcl) f b a is_index m st = Inr (rc, st')"
      and "registry_inv st"
  shows "registry_inv st'"
  unfolding registry_inv_iff
proof
  fix l
  from assms(2) have d: "distinct_patterns (list_sensitive l) (map pattern (lists st l))"
    by (simp add: registry_inv_iff)
  show "distinct_patterns (list_sensitive l) (map pattern (lists st' l))"
  proof (cases "l = rcl")
    case True
    with add_pattern_distinct [OF assms(1)] d show ?thesis by simp
  next
    case False
    with add_pattern_other_lists [OF assms(1) False] d show ?thesis by simp
  qed
qed

lemma get_list_sensitive:
  "regex_colors_get_list c = Some l \<Longrightarrow> c \<noteq> MT_COLOR_STATUS \<Longrightarrow> list_sensitive l = (c \<noteq> MT_COLOR_HEADER)"
  by (cases c) auto

lemma parse_color_list_registry_inv:
  assumes "regex_colors_parse_color_list env c pat f b a st = Inr (ok, rc, st')"
      and "registry_inv st"
  shows "registry_inv st'"
proof (cases "regex_colors_get_list c = None \<or> c = MT_COLOR_STATUS")
  case True
  then have "regex_colors_parse_color_list env c pat f b a st = Inr (False, None, st)"
    by (cases c) (simp_all add: regex_colors_parse_color_list_def)
  with assms show ?thesis by simp
next
  case False
  then obtain l where l: "regex_colors_get_list c = Some l" "c \<noteq> MT_COLOR_STATUS" by auto
  from assms(1) obtain r where
    "add_pattern env l pat (list_sensitive l) f b a (index_class c) 0 st = Inr (r, st')"
    by (auto simp: parse_color_list_supported [OF l] get_list_sensitive [OF l] split: sum.splits)
  from add_pattern_registry_inv [OF this assms(2)] show ?thesis .
qed

lemma parse_status_list_registry_inv:
  assumes "regex_colors_parse_status_list env c pat f b a m st = Inr (rc, st')"
      and "registry_inv st"
  shows "registry_inv st'"
proof (cases "c = MT_COLOR_STATUS")
  case False
  with assms show ?thesis by (simp add: regex_colors_parse_status_list_def)
next
  case True
  with assms(1) obtain r where
    "add_pattern env StatusList pat (list_sensitive StatusList) f b a False m st = Inr (r, st')"
    by (auto simp: regex_colors_parse_status_list_def split: sum.splits)
  from add_pattern_registry_inv [OF this assms(2)] show ?thesis .
qed

lemma run_call_registry_inv:
  assumes "run_call env c st = Inr st'" and "registry_inv st"
  shows "registry_inv st'"
proof (cases c)
  case (ParseColorList x1 x2 x3 x4 x5)
  with assms(1) obtain ok rc where
    "regex_colors_parse_color_list env x1 x2 x3 x4 x5 st = Inr (ok, rc, st')"
    by (auto split: sum.splits)
  from parse_color_list_registry_inv [OF this assms(2)] show ?thesis .
next
  case (ParseStatusList x1 x2 x3 x4 x5 x6)
  with assms(1) obtain rc where
    "regex_colors_parse_status_list env x1 x2 x3 x4 x5 x6 st = Inr (rc, st')"
    by (auto split: sum.splits)
  from parse_status_list_registry_inv [OF this assms(2)] show ?thesis .
next
  case Clear
  with assms(1) have "st' = regex_colors_clear st" by simp
  then show ?thesis by (simp add: registry_inv_iff regex_colors_clear_lists)
qed

lemma run_calls_registry_inv:
  "run_calls env cs st = Inr st' \<Longrightarrow> registry_inv st \<Longrightarrow> registry_inv st'"
proof (induction cs arbitrary: st)
  case Nil
  then show ?case by simp
next
  case (Cons c cs)
  from Cons.prems(1) obtain st1 where
    s: "run_call env c st = Inr st1" "run_calls env cs st1 = Inr st'"
    by (auto split: sum.splits)
  from Cons.IH [OF s(2) run_call_registry_inv [OF s(1) Cons.prems(2)]] show ?case .
qed

lemma regex_colors_init_lists: "lists (regex_colors_init st) l = []"
  by (cases l) (simp_all add: regex_colors_init_def STAILQ_INIT_def Let_def)

text \<open>
  C6. The invariant of the registry: in each of the nine lists, no rule's pattern equals
  the pattern of an earlier rule under the list's case policy. It holds after
  \<^verbatim>\<open>regex_colors_init\<close>, and every sequence of calls of the two dispatchers and of
  \<^verbatim>\<open>regex_colors_clear\<close> that starts in a state with the invariant and returns ends in
  a state with the invariant. Under the exact comparison \<^verbatim>\<open>foo\<close> and \<^verbatim>\<open>Foo\<close> are two
  patterns, under the case-folded comparison they are one.
\<close>

theorem pattern_uniqueness_invariant:
  "registry_inv (regex_colors_init st0) \<and>
   (\<forall>st'. registry_inv st \<and> run_calls env cs st = Inr st' \<longrightarrow> registry_inv st') \<and>
   (registry_inv st \<longleftrightarrow>
      (\<forall>l i j. i < j \<and> j < length (lists st l) \<longrightarrow>
         \<not> pattern_equal (list_sensitive l) (pattern (lists st l ! j)) (pattern (lists st l ! i)))) \<and>
   \<not> pattern_equal True ''Foo'' ''foo'' \<and> pattern_equal False ''Foo'' ''foo''"
proof (intro conjI allI impI)
  show "registry_inv (regex_colors_init st0)"
    by (simp add: registry_inv_iff regex_colors_init_lists)
next
  fix st'
  assume "registry_inv st \<and> run_calls env cs st = Inr st'"
  then show "registry_inv st'" using run_calls_registry_inv [of env cs st st'] by blast
next
  show "registry_inv st \<longleftrightarrow>
      (\<forall>l i j. i < j \<and> j < length (lists st l) \<longrightarrow>
         \<not> pattern_equal (list_sensitive l) (pattern (lists st l ! j)) (pattern (lists st l ! i)))"
    by (simp add: registry_inv_iff distinct_patterns_nth)
next
  show "\<not> pattern_equal True ''Foo'' ''foo''"
    by (simp add: pattern_equal_def mutt_str_equal_def)
next
  show "pattern_equal False ''Foo'' ''foo''"
    by code_simp
qed

theorem pattern_uniqueness_invariant_witness:
  "\<exists>st2 st3.
     run_calls demo_env [ParseColorList MT_COLOR_BODY ''foo'' 1 0 0,
                         ParseColorList MT_COLOR_BODY ''Foo'' 2 0 0] start_state = Inr st2 \<and>
     map pattern (lists st2 BodyList) = [''foo'', ''Foo''] \<and>
     registry_inv st2 \<and>
     run_calls demo_env [ParseColorList MT_COLOR_HEADER ''foo'' 1 0 0,
                         ParseColorList MT_COLOR_HEADER ''Foo'' 2 0 0] start_state = Inr st3 \<and>
     map pattern (lists st3 HeaderList) = [''foo''] \<and>
     registry_inv st3"
proof -
  have "case run_calls demo_env [ParseColorList MT_COLOR_BODY ''foo'' 1 0 0,
                                 ParseColorList MT_COLOR_BODY ''Foo'' 2 0 0] start_state of
          Inl e \<Rightarrow> False
        | Inr st2 \<Rightarrow> map pattern (lists st2 BodyList) = [''foo'', ''Foo'']"
    by code_simp
  then obtain st2 where
    r2: "run_calls demo_env [ParseColorList MT_COLOR_BODY ''foo'' 1 0 0,
                             ParseColorList MT_COLOR_BODY ''Foo'' 2 0 0] start_state = Inr st2" and
    p2: "map pattern (lists st2 BodyList) = [''foo'', ''Foo'']"
    by (cases "run_calls demo_env [ParseColorList MT_COLOR_BODY ''foo'' 1 0 0,
                                   ParseColorList MT_COLOR_BODY ''Foo'' 2 0 0] start_state") auto
  have "case run_calls demo_env [ParseColorList MT_COLOR_HEADER ''foo'' 1 0 0,
                                 ParseColorList MT_COLOR_HEADER ''Foo'' 2 0 0] start_state of
          Inl e \<Rightarrow> False
        | Inr st3 \<Rightarrow> map pattern (lists st3 HeaderList) = [''foo'']"
    by code_simp
  then obtain st3 where
    r3: "run_calls demo_env [ParseColorList MT_COLOR_HEADER ''foo'' 1 0 0,
                             ParseColorList MT_COLOR_HEADER ''Foo'' 2 0 0] start_state = Inr st3" and
    p3: "map pattern (lists st3 HeaderList) = [''foo'']"
    by (cases "run_calls demo_env [ParseColorList MT_COLOR_HEADER ''foo'' 1 0 0,
                                   ParseColorList MT_COLOR_HEADER ''Foo'' 2 0 0] start_state") auto
  have i0: "registry_inv start_state"
    unfolding start_state_def
    by (rule pattern_uniqueness_invariant [THEN conjunct1])
  from pattern_uniqueness_invariant
         [of _ start_state demo_env "[ParseColorList MT_COLOR_BODY ''foo'' 1 0 0,
                                      ParseColorList MT_COLOR_BODY ''Foo'' 2 0 0]",
          THEN conjunct2, THEN conjunct1, rule_format, OF conjI [OF i0 r2]]
  have i2: "registry_inv st2" .
  from pattern_uniqueness_invariant
         [of _ start_state demo_env "[ParseColorList MT_COLOR_HEADER ''foo'' 1 0 0,
                                      ParseColorList MT_COLOR_HEADER ''Foo'' 2 0 0]",
          THEN conjunct2, THEN conjunct1, rule_format, OF conjI [OF i0 r3]]
  have i3: "registry_inv st3" .
  show ?thesis
    by (rule exI [of _ st2], rule exI [of _ st3]) (simp only: r2 p2 i2 r3 p3 i3 simp_thms)
qed

subsection \<open>The second call for a pattern\<close>

lemma add_pattern_notify_frame:
  obtains st2 where "add_pattern_notify is_index st = Inr (MUTT_CMD_SUCCESS, st2)"
    "lists st2 = lists st" "released st2 = released st"
  by (cases is_index) (simp_all add: add_pattern_notify_Inr)

text \<open>
  C1. The code breaks the claim on the update path. A call of \<^verbatim>\<open>add_pattern\<close> ends in
  a null pointer dereference exactly when the pattern is found, the rule has a handle
  whose colours differ from the requested ones, and \<^verbatim>\<open>curses_color_new\<close> returns a null
  pointer for the requested colours: the old handle is released, the result of
  \<^verbatim>\<open>curses_color_new\<close> is written through unchecked, and neither the new handle nor the
  new style flags are stored. The insertion path stores a null result of
  \<^verbatim>\<open>curses_color_new\<close> unchanged, and the guard of the update path expects a rule with
  a null handle.
\<close>

theorem add_pattern_update_null_deref:
  "add_pattern env rcl s sensitive f b a is_index m st = Inl NullDeref \<longleftrightarrow>
     (\<exists>i c. add_pattern_scan s sensitive (lists st rcl) = Some i \<and>
            curses_color (attr_color (lists st rcl ! i)) = Some c \<and>
            (fg c \<noteq> f \<or> bg c \<noteq> b) \<and>
            curses_color_new env f b = None)"
  by (cases rule: add_pattern_cases [of s sensitive st rcl f b env a is_index m])
     (auto simp: add_pattern_notify_Inr)

theorem add_pattern_update_null_deref_witness:
  "\<exists>st1. add_pattern demo_env BodyList ''foo'' True 1 0 0 False 0 start_state
           = Inr (MUTT_CMD_SUCCESS, st1) \<and>
         map pattern (lists st1 BodyList) = [''foo''] \<and>
         curses_color (attr_color (lists st1 BodyList ! 0)) = Some \<lparr>fg = 1, bg = 0\<rparr> \<and>
         curses_color_new demo_env (- 1) (- 1) = None \<and>
         add_pattern demo_env BodyList ''foo'' True (- 1) (- 1) 4 False 0 st1 = Inl NullDeref"
proof -
  have "case add_pattern demo_env BodyList ''foo'' True 1 0 0 False 0 start_state of
          Inl e \<Rightarrow> False
        | Inr (rc1, st1) \<Rightarrow>
            rc1 = MUTT_CMD_SUCCESS \<and>
            map pattern (lists st1 BodyList) = [''foo''] \<and>
            add_pattern_scan ''foo'' True (lists st1 BodyList) = Some 0 \<and>
            curses_color (attr_color (lists st1 BodyList ! 0)) = Some \<lparr>fg = 1, bg = 0\<rparr>"
    by code_simp
  then obtain st1 where
    r1: "add_pattern demo_env BodyList ''foo'' True 1 0 0 False 0 start_state
           = Inr (MUTT_CMD_SUCCESS, st1)" and
    p1: "map pattern (lists st1 BodyList) = [''foo'']" and
    s1: "add_pattern_scan ''foo'' True (lists st1 BodyList) = Some 0" and
    c1: "curses_color (attr_color (lists st1 BodyList ! 0)) = Some \<lparr>fg = 1, bg = 0\<rparr>"
    by (cases "add_pattern demo_env BodyList ''foo'' True 1 0 0 False 0 start_state") auto
  have n: "curses_color_new demo_env (- 1) (- 1) = None" by code_simp
  have d: "fg \<lparr>fg = 1, bg = 0\<rparr> \<noteq> (- 1 :: 32 word) \<or> bg \<lparr>fg = 1, bg = 0\<rparr> \<noteq> (- 1 :: 32 word)"
    by simp
  from s1 c1 d n
  have "\<exists>i c. add_pattern_scan ''foo'' True (lists st1 BodyList) = Some i \<and>
              curses_color (attr_color (lists st1 BodyList ! i)) = Some c \<and>
              (fg c \<noteq> - 1 \<or> bg c \<noteq> - 1) \<and>
              curses_color_new demo_env (- 1) (- 1) = None"
    by (intro exI [of _ 0] exI [of _ "\<lparr>fg = 1, bg = 0\<rparr>"]) (simp only: simp_thms)
  with add_pattern_update_null_deref [of demo_env BodyList "''foo''" True "- 1" "- 1" 4 False 0 st1]
  have x: "add_pattern demo_env BodyList ''foo'' True (- 1) (- 1) 4 False 0 st1 = Inl NullDeref"
    by (simp only: simp_thms)
  show ?thesis
    by (rule exI [of _ st1]) (simp only: r1 p1 c1 n x simp_thms)
qed

subsection \<open>Insertion order\<close>

lemma distinct_patterns_append2:
  "distinct_patterns sensitive (qs @ p # ps) \<Longrightarrow>
     (\<forall>q \<in> set qs. \<not> pattern_equal sensitive p q) \<and> distinct_patterns sensitive ((qs @ [p]) @ ps)"
  by (induction qs) auto

lemma run_calls_appends:
  assumes "regex_colors_get_list c = Some l" and "c \<noteq> MT_COLOR_STATUS"
  shows "distinct_patterns (list_sensitive l) (map pattern (lists st l) @ ps) \<Longrightarrow>
         \<forall>p \<in> set ps. \<not> compile_fails env p (list_sensitive l) (index_class c) \<Longrightarrow>
         \<exists>st'. run_calls env (map (\<lambda>p. ParseColorList c p f b a) ps) st = Inr st' \<and>
               map pattern (lists st' l) = map pattern (lists st l) @ ps"
proof (induction ps arbitrary: st)
  case Nil
  then show ?case by simp
next
  case (Cons p ps)
  from distinct_patterns_append2 [OF Cons.prems(1)]
  have new: "\<forall>q \<in> set (map pattern (lists st l)). \<not> pattern_equal (list_sensitive l) p q"
    and d: "distinct_patterns (list_sensitive l) ((map pattern (lists st l) @ [p]) @ ps)"
    by simp_all
  from new have scan: "add_pattern_scan p (list_sensitive l) (lists st l) = None"
    by (simp add: add_pattern_scan_None)
  from Cons.prems(2) have ok: "\<not> compile_fails env p (list_sensitive l) (index_class c)" by simp
  obtain st1 where st1:
    "add_pattern_notify (index_class c)
       (st\<lparr>lists := (lists st)(l := lists st l @
          [new_rule env p (list_sensitive l) f b a (index_class c) 0])\<rparr>) = Inr (MUTT_CMD_SUCCESS, st1)"
    "lists st1 = lists (st\<lparr>lists := (lists st)(l := lists st l @
          [new_rule env p (list_sensitive l) f b a (index_class c) 0])\<rparr>)"
    by (rule add_pattern_notify_frame)
  from add_pattern_append [OF scan ok, of f b a 0] st1(1)
  have "add_pattern env l p (list_sensitive l) f b a (index_class c) 0 st = Inr (MUTT_CMD_SUCCESS, st1)"
    by simp
  then have call: "run_call env (ParseColorList c p f b a) st = Inr st1"
    by (simp add: parse_color_list_supported [OF assms] get_list_sensitive [OF assms])
  from st1(2) have p1: "map pattern (lists st1 l) = map pattern (lists st l) @ [p]"
    by (simp add: new_rule_def)
  from d p1 have d1: "distinct_patterns (list_sensitive l) (map pattern (lists st1 l) @ ps)" by simp
  from Cons.prems(2) have ok1: "\<forall>p \<in> set ps. \<not> compile_fails env p (list_sensitive l) (index_class c)"
    by simp
  from Cons.IH [OF d1 ok1] obtain st' where
    "run_calls env (map (\<lambda>p. ParseColorList c p f b a) ps) st1 = Inr st'"
    "map pattern (lists st' l) = map pattern (lists st1 l) @ ps"
    by blast
  with call p1 show ?case by simp
qed

text \<open>
  C7. A successful call for a pattern that is not in the list yet appends one rule, with
  that pattern, at the end of the list and keeps the rules before it as they were; a call
  for a pattern that is in the list leaves the patterns of the list, and so the position
  of every rule, as they were. Hence registering, through
  \<^verbatim>\<open>regex_colors_parse_color_list\<close>, patterns that compile and are pairwise distinct
  under the list's policy into an empty list yields the patterns in that order.
\<close>

theorem insertion_order_preserved:
  "(\<forall>st'. add_pattern_scan s sensitive (lists st rcl) = None \<and>
          add_pattern env rcl s sensitive f b a is_index m st = Inr (MUTT_CMD_SUCCESS, st')
      \<longrightarrow> (\<exists>r. lists st' rcl = lists st rcl @ [r] \<and> pattern r = s)) \<and>
   (\<forall>i rc st'. add_pattern_scan s sensitive (lists st rcl) = Some i \<and>
          add_pattern env rcl s sensitive f b a is_index m st = Inr (rc, st')
      \<longrightarrow> map pattern (lists st' rcl) = map pattern (lists st rcl) \<and>
          pattern_equal sensitive s (pattern (lists st' rcl ! i))) \<and>
   (regex_colors_get_list c = Some l \<and> c \<noteq> MT_COLOR_STATUS \<and> lists st l = [] \<and>
    distinct_patterns (list_sensitive l) ps \<and>
    (\<forall>p \<in> set ps. \<not> compile_fails env p (list_sensitive l) (index_class c))
      \<longrightarrow> (\<exists>st'. run_calls env (map (\<lambda>p. ParseColorList c p f b a) ps) st = Inr st' \<and>
                 map pattern (lists st' l) = ps))"
proof (intro conjI allI impI)
  fix st'
  assume h: "add_pattern_scan s sensitive (lists st rcl) = None \<and>
             add_pattern env rcl s sensitive f b a is_index m st = Inr (MUTT_CMD_SUCCESS, st')"
  then show "\<exists>r. lists st' rcl = lists st rcl @ [r] \<and> pattern r = s"
    by (cases rule: add_pattern_cases [of s sensitive st rcl f b env a is_index m])
       (auto simp: add_pattern_notify_Inr new_rule_def)
next
  fix i rc st'
  assume h: "add_pattern_scan s sensitive (lists st rcl) = Some i \<and>
             add_pattern env rcl s sensitive f b a is_index m st = Inr (rc, st')"
  from add_pattern_patterns [of env rcl s sensitive f b a is_index m st rc st' rcl] h
  show p: "map pattern (lists st' rcl) = map pattern (lists st rcl)" by simp
  from h add_pattern_scan_Some [of s sensitive "lists st rcl" i]
  have i: "i < length (lists st rcl)" "pattern_equal sensitive s (pattern (lists st rcl ! i))"
    by simp_all
  from p i(1) have "pattern (lists st' rcl ! i) = pattern (lists st rcl ! i)"
    by (metis length_map nth_map)
  with i(2) show "pattern_equal sensitive s (pattern (lists st' rcl ! i))" by simp
next
  assume h: "regex_colors_get_list c = Some l \<and> c \<noteq> MT_COLOR_STATUS \<and> lists st l = [] \<and>
             distinct_patterns (list_sensitive l) ps \<and>
             (\<forall>p \<in> set ps. \<not> compile_fails env p (list_sensitive l) (index_class c))"
  then have "distinct_patterns (list_sensitive l) (map pattern (lists st l) @ ps)" by simp
  from run_calls_appends [OF _ _ this, of c env f b a] h
  show "\<exists>st'. run_calls env (map (\<lambda>p. ParseColorList c p f b a) ps) st = Inr st' \<and>
              map pattern (lists st' l) = ps"
    by simp
qed

theorem insertion_order_preserved_witness:
  "\<exists>st2 st3 st4 st5.
     run_calls demo_env [ParseColorList MT_COLOR_BODY ''a'' 1 0 0,
                         ParseColorList MT_COLOR_BODY ''b'' 2 0 0] start_state = Inr st2 \<and>
     map pattern (lists st2 BodyList) = [''a'', ''b''] \<and>
     add_pattern demo_env BodyList ''c'' True 3 0 0 False 0 st2 = Inr (MUTT_CMD_SUCCESS, st3) \<and>
     map pattern (lists st3 BodyList) = [''a'', ''b'', ''c''] \<and>
     add_pattern demo_env BodyList ''b'' True 4 5 0 False 0 st3 = Inr (MUTT_CMD_SUCCESS, st4) \<and>
     map pattern (lists st4 BodyList) = [''a'', ''b'', ''c''] \<and>
     run_calls demo_env (map (\<lambda>p. ParseColorList MT_COLOR_BODY p 1 0 0) [''a'', ''b'', ''c''])
       start_state = Inr st5 \<and>
     map pattern (lists st5 BodyList) = [''a'', ''b'', ''c'']"
proof -
  have "case run_calls demo_env [ParseColorList MT_COLOR_BODY ''a'' 1 0 0,
                                 ParseColorList MT_COLOR_BODY ''b'' 2 0 0] start_state of
          Inl e \<Rightarrow> False
        | Inr st2 \<Rightarrow>
            map pattern (lists st2 BodyList) = [''a'', ''b''] \<and>
            add_pattern_scan ''c'' True (lists st2 BodyList) = None \<and>
            (case add_pattern demo_env BodyList ''c'' True 3 0 0 False 0 st2 of
               Inl e \<Rightarrow> False
             | Inr (rc3, st3) \<Rightarrow>
                 rc3 = MUTT_CMD_SUCCESS \<and>
                 add_pattern_scan ''b'' True (lists st3 BodyList) = Some 1 \<and>
                 (case add_pattern demo_env BodyList ''b'' True 4 5 0 False 0 st3 of
                    Inl e \<Rightarrow> False
                  | Inr (rc4, st4) \<Rightarrow> rc4 = MUTT_CMD_SUCCESS))"
    by code_simp
  then obtain st2 where
    r2: "run_calls demo_env [ParseColorList MT_COLOR_BODY ''a'' 1 0 0,
                             ParseColorList MT_COLOR_BODY ''b'' 2 0 0] start_state = Inr st2" and
    p2: "map pattern (lists st2 BodyList) = [''a'', ''b'']" and
    s2: "add_pattern_scan ''c'' True (lists st2 BodyList) = None" and
    e3: "case add_pattern demo_env BodyList ''c'' True 3 0 0 False 0 st2 of
           Inl e \<Rightarrow> False
         | Inr (rc3, st3) \<Rightarrow>
             rc3 = MUTT_CMD_SUCCESS \<and>
             add_pattern_scan ''b'' True (lists st3 BodyList) = Some 1 \<and>
             (case add_pattern demo_env BodyList ''b'' True 4 5 0 False 0 st3 of
                Inl e \<Rightarrow> False
              | Inr (rc4, st4) \<Rightarrow> rc4 = MUTT_CMD_SUCCESS)"
    by (cases "run_calls demo_env [ParseColorList MT_COLOR_BODY ''a'' 1 0 0,
                                   ParseColorList MT_COLOR_BODY ''b'' 2 0 0] start_state") auto
  from e3 obtain st3 where
    r3: "add_pattern demo_env BodyList ''c'' True 3 0 0 False 0 st2 = Inr (MUTT_CMD_SUCCESS, st3)" and
    s3: "add_pattern_scan ''b'' True (lists st3 BodyList) = Some 1" and
    e4: "case add_pattern demo_env BodyList ''b'' True 4 5 0 False 0 st3 of
           Inl e \<Rightarrow> False
         | Inr (rc4, st4) \<Rightarrow> rc4 = MUTT_CMD_SUCCESS"
    by (cases "add_pattern demo_env BodyList ''c'' True 3 0 0 False 0 st2") auto
  from e4 obtain st4 where
    r4: "add_pattern demo_env BodyList ''b'' True 4 5 0 False 0 st3 = Inr (MUTT_CMD_SUCCESS, st4)"
    by (cases "add_pattern demo_env BodyList ''b'' True 4 5 0 False 0 st3") auto
  from insertion_order_preserved [of "''c''" True st2 BodyList demo_env 3 0 0 False 0, THEN conjunct1] s2 r3
  obtain r where "lists st3 BodyList = lists st2 BodyList @ [r]" "pattern r = ''c''"
    by blast
  with p2 have p3: "map pattern (lists st3 BodyList) = [''a'', ''b'', ''c'']" by simp
  from insertion_order_preserved [of "''b''" True st3 BodyList demo_env 4 5 0 False 0,
      THEN conjunct2, THEN conjunct1] s3 r4
  have "map pattern (lists st4 BodyList) = map pattern (lists st3 BodyList)"
    by blast
  with p3 have p4: "map pattern (lists st4 BodyList) = [''a'', ''b'', ''c'']" by simp
  have g: "regex_colors_get_list MT_COLOR_BODY = Some BodyList" "MT_COLOR_BODY \<noteq> MT_COLOR_STATUS"
    by simp_all
  have e: "lists start_state BodyList = []" by code_simp
  have d: "distinct_patterns (list_sensitive BodyList) [''a'', ''b'', ''c'']" by code_simp
  have k: "\<forall>p \<in> set [''a'', ''b'', ''c''].
             \<not> compile_fails demo_env p (list_sensitive BodyList) (index_class MT_COLOR_BODY)"
    by code_simp
  from insertion_order_preserved
         [of _ _ start_state _ demo_env 1 0 0 _ _ MT_COLOR_BODY BodyList "[''a'', ''b'', ''c'']",
          THEN conjunct2, THEN conjunct2, THEN mp,
          OF conjI [OF g(1) conjI [OF g(2) conjI [OF e conjI [OF d k]]]]]
  obtain st5 where
    r5: "run_calls demo_env (map (\<lambda>p. ParseColorList MT_COLOR_BODY p 1 0 0) [''a'', ''b'', ''c''])
           start_state = Inr st5" and
    p5: "map pattern (lists st5 BodyList) = [''a'', ''b'', ''c'']"
    by (elim exE conjE)
  show ?thesis
    by (rule exI [of _ st2], rule exI [of _ st3], rule exI [of _ st4], rule exI [of _ st5])
       (simp only: r2 p2 r3 p3 r4 p4 r5 p5 simp_thms)
qed

end
